theory Spec2Isabelle
  imports Main "HOL-Library.Word" "HOL-Library.Char_ord" "HOL-Library.List_Lexorder"
    "HOL-Library.AList" "HOL-Library.Countable"
begin

section \<open>Data model (magnet-handler, package main)\<close>

text \<open>
  Go's \<^verbatim>\<open>int64\<close> (and \<^verbatim>\<open>int\<close> on the 64-bit targets) are 64-bit words: addition and
  subtraction wrap, comparison is the signed one (\<open>\<le>s\<close>, \<open><s\<close>). A Go \<^verbatim>\<open>string\<close> and a \<^verbatim>\<open>[]byte\<close> are
  byte sequences. A Go map is a partial function; the order in which \<^verbatim>\<open>range\<close> visits
  its keys is not fixed by the language, so every loop over a map takes the visiting
  order as an explicit list.
\<close>

type_synonym int64 = "64 word"
type_synonym bytes = string

record MagnetEntry =
  UUID :: string
  ID :: int64
  Title :: string
  Hash :: string
  URI :: string
  AddedDate :: string
  FirstSeen :: string
  LastAttempt :: string
  Status :: string
  TorrentID :: string
  AddedToDeluge :: string
  RetryCount :: int64
  SavePath :: string
  TorrentName :: string

record DatabaseMetadata =
  LastSequence :: int64
  LastModified :: string
  Checksum :: string

record MagnetDatabase =
  Metadata :: DatabaseMetadata
  Added :: "string \<rightharpoonup> MagnetEntry"
  Retry :: "string \<rightharpoonup> MagnetEntry"

text \<open>The zero values Go gives to a struct that is declared and not initialised.\<close>

definition zero_entry :: MagnetEntry where
  "zero_entry = \<lparr>UUID = [], ID = 0, Title = [], Hash = [], URI = [], AddedDate = [],
     FirstSeen = [], LastAttempt = [], Status = [], TorrentID = [], AddedToDeluge = [],
     RetryCount = 0, SavePath = [], TorrentName = []\<rparr>"

definition zero_metadata :: DatabaseMetadata where
  "zero_metadata = \<lparr>LastSequence = 0, LastModified = [], Checksum = []\<rparr>"

definition empty_db :: MagnetDatabase where
  "empty_db = \<lparr>Metadata = zero_metadata, Added = Map.empty, Retry = Map.empty\<rparr>"

text \<open>Legacy formats. V0's \<^verbatim>\<open>Progress float64\<close> is never read by the program and is left out.\<close>

record MagnetEntryV0 =
  v0_Hash :: string
  v0_Title :: string
  v0_URI :: string
  v0_TorrentName :: string
  v0_SavePath :: string
  v0_State :: string
  v0_Status :: string
  v0_TorrentID :: string
  v0_AddedToDeluge :: string
  v0_FirstSeen :: string
  v0_LastAttempt :: string
  v0_Backfilled :: string

record MagnetEntryV1 =
  v1_Title :: string
  v1_Hash :: string
  v1_URI :: string
  v1_AddedDate :: string
  v1_LastAttempt :: string
  v1_RetryCount :: int64
  v1_SavePath :: string
  v1_TorrentName :: string

text \<open>
  Errors: \<open>Errorf\<close> is \<^verbatim>\<open>fmt.Errorf\<close> with a constant message, \<open>Wrapped\<close> is
  \<^verbatim>\<open>fmt.Errorf("...: %w", err)\<close>; the others come from the operating system and from
  \<^verbatim>\<open>encoding/json\<close>.
\<close>

datatype error =
    Errorf string
  | Wrapped string error
  | JSONError string
  | ReadError string
  | WriteError string
  | RenameError string

section \<open>The standard library the program calls\<close>

text \<open>
  \<^verbatim>\<open>encoding/json\<close> and \<^verbatim>\<open>crypto/sha1\<close> are not code of this repository: the functions
  the program calls are the fields of a record that every operation takes as its first
  argument. \<^verbatim>\<open>json.Unmarshal(data, db)\<close> writes into the value it is given and may have
  changed it when it returns an error, so it returns both. A decoded legacy map is listed
  in the order \<^verbatim>\<open>range\<close> will visit it. \<^verbatim>\<open>sha1.Sum\<close> returns \<^verbatim>\<open>[20]byte\<close>, 160 bits. The
  library reports an error by its message; the program's errors of type \<open>error\<close> wrap it
  in \<open>JSONError\<close>, so that an error value tells which step produced it.
\<close>

record golib =
  json_Marshal :: "MagnetDatabase \<Rightarrow> string + bytes"
  json_MarshalIndent :: "MagnetDatabase \<Rightarrow> string + bytes"
  json_Unmarshal :: "bytes \<Rightarrow> MagnetDatabase \<Rightarrow> string option \<times> MagnetDatabase"
  json_Unmarshal_V0 :: "bytes \<Rightarrow> string option \<times> (string \<times> MagnetEntryV0) list"
  json_Unmarshal_V1 :: "bytes \<Rightarrow>
     string option \<times> (string \<times> MagnetEntryV1) list \<times> (string \<times> MagnetEntryV1) list"
  sha1_Sum :: "bytes \<Rightarrow> 160 word"

section \<open>Checksum engine\<close>

definition hex_digit :: "nat \<Rightarrow> char" where
  "hex_digit n = ''0123456789abcdef'' ! (n mod 16)"

text \<open>\<^verbatim>\<open>hex.EncodeToString(hash[:])\<close>: two lower-case digits per byte, first byte first.\<close>

definition hex_EncodeToString :: "160 word \<Rightarrow> string" where
  "hex_EncodeToString h = map (\<lambda>i. hex_digit (unat (drop_bit (4 * (39 - i)) h))) [0..<40]"

text \<open>
  \<^verbatim>\<open>ComputeChecksum\<close> (lines 136-146): the whole \<^verbatim>\<open>*MagnetDatabase\<close>, metadata included,
  goes to \<^verbatim>\<open>json.Marshal\<close>; a marshalling error gives the empty string.
\<close>

definition ComputeChecksum :: "golib \<Rightarrow> MagnetDatabase \<Rightarrow> string" where
  "ComputeChecksum L db =
     (case json_Marshal L db of
        Inl err \<Rightarrow> []
      | Inr data \<Rightarrow> hex_EncodeToString (sha1_Sum L data))"

section \<open>Merge engine\<close>

text \<open>\<^verbatim>\<open>e, ok := m[hash]\<close>: the zero entry and false when the key is absent.\<close>

definition lookup2 :: "(string \<rightharpoonup> MagnetEntry) \<Rightarrow> string \<Rightarrow> MagnetEntry \<times> bool" where
  "lookup2 m h = (case m h of None \<Rightarrow> (zero_entry, False) | Some e \<Rightarrow> (e, True))"

text \<open>
  The four candidates of a hash (lines 499-517), each \<open>(entry, isAdded, exists)\<close>, in the
  order of the slice literal.
\<close>

definition candidates ::
  "MagnetDatabase \<Rightarrow> MagnetDatabase \<Rightarrow> string \<Rightarrow> (MagnetEntry \<times> bool \<times> bool) list" where
  "candidates loc remote h =
     [(fst (lookup2 (Added loc) h), True, snd (lookup2 (Added loc) h)),
      (fst (lookup2 (Retry loc) h), False, snd (lookup2 (Retry loc) h)),
      (fst (lookup2 (Added remote) h), True, snd (lookup2 (Added remote) h)),
      (fst (lookup2 (Retry remote) h), False, snd (lookup2 (Retry remote) h))]"

text \<open>
  The loop over the candidates (lines 519-529). The state is
  \<open>(winner, inAdded, winnerFound)\<close>. Go's \<^verbatim>\<open>a || b && c || d\<close> is \<open>a \<or> (b \<and> c) \<or> d\<close>.
\<close>

fun select_winner ::
  "(MagnetEntry \<times> bool \<times> bool) list \<Rightarrow> MagnetEntry \<times> bool \<times> bool \<Rightarrow> MagnetEntry \<times> bool \<times> bool" where
  "select_winner [] st = st"
| "select_winner ((e, isAdded, ex) # cs) (winner, inAdded, winnerFound) =
     (if \<not> ex then select_winner cs (winner, inAdded, winnerFound)
      else if \<not> winnerFound \<or> (isAdded \<and> \<not> inAdded) \<or> ID winner <s ID e
           then select_winner cs (e, isAdded, True)
           else select_winner cs (winner, inAdded, winnerFound))"

text \<open>
  One iteration of the loop over \<^verbatim>\<open>allHashes\<close> (lines 497-548); the state is the merged
  database so far and \<^verbatim>\<open>nextID\<close>.
\<close>

definition merge_hash ::
  "MagnetDatabase \<Rightarrow> MagnetDatabase \<Rightarrow> string \<Rightarrow> MagnetDatabase \<times> int64 \<Rightarrow> MagnetDatabase \<times> int64" where
  "merge_hash loc remote h st =
     (case st of (merged, nextID) \<Rightarrow>
      (case select_winner (candidates loc remote h) (zero_entry, False, False) of
         (winner, inAdded, winnerFound) \<Rightarrow>
           if winnerFound then
             (let (winner', nextID') =
                    (if ID winner = 0 then (winner\<lparr>ID := nextID\<rparr>, nextID + 1)
                     else (winner, if nextID \<le>s ID winner then ID winner + 1 else nextID))
              in if inAdded
                 then (merged\<lparr>Added := (Added merged)(h \<mapsto> winner')\<rparr>, nextID')
                 else (merged\<lparr>Retry := (Retry merged)(h \<mapsto> winner')\<rparr>, nextID'))
           else (merged, nextID)))"

fun merge_range ::
  "MagnetDatabase \<Rightarrow> MagnetDatabase \<Rightarrow> string list \<Rightarrow> MagnetDatabase \<times> int64 \<Rightarrow> MagnetDatabase \<times> int64" where
  "merge_range loc remote [] st = st"
| "merge_range loc remote (h # hs) st = merge_range loc remote hs (merge_hash loc remote h st)"

text \<open>The key set of \<^verbatim>\<open>allHashes\<close> (lines 482-494).\<close>

definition allHashes :: "MagnetDatabase \<Rightarrow> MagnetDatabase \<Rightarrow> string set" where
  "allHashes loc remote = dom (Added loc) \<union> dom (Retry loc) \<union> dom (Added remote) \<union> dom (Retry remote)"

text \<open>\<open>hs\<close> is an order in which \<^verbatim>\<open>range\<close> may visit a map with key set \<open>S\<close>.\<close>

definition range_order :: "string set \<Rightarrow> string list \<Rightarrow> bool" where
  "range_order S hs = (distinct hs \<and> set hs = S)"

text \<open>
  \<^verbatim>\<open>MergeDatabases\<close> (lines 473-556). \<open>now\<close> is \<^verbatim>\<open>time.Now().Format(time.RFC3339)\<close>, \<open>hs\<close>
  the order in which \<^verbatim>\<open>range allHashes\<close> yields the keys. The input metadata is not read.
\<close>

definition MergeDatabases ::
  "golib \<Rightarrow> string \<Rightarrow> string list \<Rightarrow> MagnetDatabase \<Rightarrow> MagnetDatabase \<Rightarrow> MagnetDatabase" where
  "MergeDatabases L now hs loc remote =
     (case merge_range loc remote hs (empty_db, 1) of
        (merged, nextID) \<Rightarrow>
          (let m1 = merged\<lparr>Metadata := (Metadata merged)\<lparr>LastSequence := nextID - 1\<rparr>\<rparr>;
               m2 = m1\<lparr>Metadata := (Metadata m1)\<lparr>LastModified := now\<rparr>\<rparr>
           in m2\<lparr>Metadata := (Metadata m2)\<lparr>Checksum := ComputeChecksum L m2\<rparr>\<rparr>))"

section \<open>The world outside the process\<close>

text \<open>
  The file system maps a path to the bytes stored there. A read of an existing file can
  fail transiently (a sharing violation on the network share): \<open>read_faults\<close> counts
  the failures still to come on a path. \<^verbatim>\<open>os.WriteFile\<close> opens with
  \<^verbatim>\<open>O_WRONLY|O_CREATE|O_TRUNC\<close> and then writes: it succeeds, fails to open (nothing
  changes), or fails after some bytes (a truncated file is left). \<^verbatim>\<open>os.Rename\<close> either
  replaces the destination in one step or changes nothing. \<^verbatim>\<open>os.Remove\<close> deletes the
  file unless it fails. \<open>clock\<close> is
  \<^verbatim>\<open>time.Now().Format(time.RFC3339)\<close>; \<open>uuid_source\<close> is what \<^verbatim>\<open>GenerateUUID\<close> returns on
  its successive calls (it formats 16 bytes of \<^verbatim>\<open>crypto/rand\<close>).
\<close>

datatype write_outcome = WriteOK | OpenFails | WriteFailsAfter nat

record world =
  files :: "string \<rightharpoonup> bytes"
  read_faults :: "string \<Rightarrow> nat"
  write_plan :: "string \<Rightarrow> write_outcome"
  rename_fails :: "string \<Rightarrow> string \<Rightarrow> bool"
  remove_fails :: "string \<Rightarrow> bool"
  clock :: string
  uuid_source :: "nat \<Rightarrow> string"
  uuid_count :: nat

definition os_ReadFile :: "string \<Rightarrow> world \<Rightarrow> (error + bytes) \<times> world" where
  "os_ReadFile path w =
     (case files w path of
        None \<Rightarrow> (Inl (ReadError path), w)
      | Some data \<Rightarrow>
          if 0 < read_faults w path
          then (Inl (ReadError path), w\<lparr>read_faults := (read_faults w)(path := read_faults w path - 1)\<rparr>)
          else (Inr data, w))"

definition os_WriteFile :: "string \<Rightarrow> bytes \<Rightarrow> world \<Rightarrow> error option \<times> world" where
  "os_WriteFile path data w =
     (case write_plan w path of
        WriteOK \<Rightarrow> (None, w\<lparr>files := (files w)(path \<mapsto> data)\<rparr>)
      | OpenFails \<Rightarrow> (Some (WriteError path), w)
      | WriteFailsAfter n \<Rightarrow> (Some (WriteError path), w\<lparr>files := (files w)(path \<mapsto> take n data)\<rparr>))"

definition os_Rename :: "string \<Rightarrow> string \<Rightarrow> world \<Rightarrow> error option \<times> world" where
  "os_Rename oldpath newpath w =
     (case files w oldpath of
        None \<Rightarrow> (Some (RenameError oldpath), w)
      | Some data \<Rightarrow>
          if rename_fails w oldpath newpath then (Some (RenameError newpath), w)
          else (None, w\<lparr>files := ((files w)(oldpath := None))(newpath \<mapsto> data)\<rparr>))"

text \<open>\<^verbatim>\<open>os.Remove\<close>: the program discards its result, so only the world is returned.\<close>

definition os_Remove :: "string \<Rightarrow> world \<Rightarrow> world" where
  "os_Remove path w = (if remove_fails w path then w else w\<lparr>files := (files w)(path := None)\<rparr>)"

definition GenerateUUID :: "world \<Rightarrow> string \<times> world" where
  "GenerateUUID w = (uuid_source w (uuid_count w), w\<lparr>uuid_count := Suc (uuid_count w)\<rparr>)"

text \<open>\<^verbatim>\<open>ComputeFileChecksum\<close> (lines 149-156).\<close>

definition ComputeFileChecksum :: "golib \<Rightarrow> string \<Rightarrow> world \<Rightarrow> (error + string) \<times> world" where
  "ComputeFileChecksum L path w =
     (case os_ReadFile path w of
        (Inl err, w') \<Rightarrow> (Inl err, w')
      | (Inr data, w') \<Rightarrow> (Inr (hex_EncodeToString (sha1_Sum L data)), w'))"

section \<open>Format detector and migrator, load\<close>

text \<open>
  The V0 loop (lines 385-410): every entry goes to \<^verbatim>\<open>db.Added\<close> with a fresh UUID and the
  next sequence number. The state is the database, \<^verbatim>\<open>nextID\<close> and the world;
  \<open>migrate_V0_entry\<close> is the loop body.
\<close>

definition migrate_V0_entry ::
  "string \<times> MagnetEntryV0 \<Rightarrow> MagnetDatabase \<times> int64 \<times> world \<Rightarrow> MagnetDatabase \<times> int64 \<times> world" where
  "migrate_V0_entry kv st =
     (case kv of (hash, v0) \<Rightarrow>
      case st of (db, nextID, w) \<Rightarrow>
        (let uri = (if v0_URI v0 = [] then ''magnet:?xt=urn:btih:'' @ v0_Hash v0 else v0_URI v0);
             (uuid, w') = GenerateUUID w;
             e = \<lparr>UUID = uuid, ID = nextID, Title = v0_Title v0, Hash = v0_Hash v0, URI = uri,
                  AddedDate = v0_FirstSeen v0, FirstSeen = v0_FirstSeen v0,
                  LastAttempt = v0_LastAttempt v0, Status = v0_Status v0,
                  TorrentID = v0_TorrentID v0, AddedToDeluge = v0_AddedToDeluge v0,
                  RetryCount = 0, SavePath = v0_SavePath v0, TorrentName = v0_TorrentName v0\<rparr>
         in (db\<lparr>Added := (Added db)(hash \<mapsto> e)\<rparr>, nextID + 1, w')))"

fun migrate_V0 ::
  "(string \<times> MagnetEntryV0) list \<Rightarrow> MagnetDatabase \<times> int64 \<times> world \<Rightarrow> MagnetDatabase \<times> int64 \<times> world" where
  "migrate_V0 [] st = st"
| "migrate_V0 (kv # rest) st = migrate_V0 rest (migrate_V0_entry kv st)"

text \<open>
  The two V1 loops (lines 426-441) differ only in the map they write: \<open>toAdded\<close> selects
  \<^verbatim>\<open>db.Added\<close>, otherwise \<^verbatim>\<open>db.Retry\<close>.
\<close>

definition migrate_V1_entry ::
  "bool \<Rightarrow> string \<times> MagnetEntryV1 \<Rightarrow> MagnetDatabase \<times> int64 \<times> world \<Rightarrow>
   MagnetDatabase \<times> int64 \<times> world" where
  "migrate_V1_entry toAdded kv st =
     (case kv of (hash, v1) \<Rightarrow>
      case st of (db, nextID, w) \<Rightarrow>
        (let (uuid, w') = GenerateUUID w;
             e = \<lparr>UUID = uuid, ID = nextID, Title = v1_Title v1, Hash = v1_Hash v1,
                  URI = v1_URI v1, AddedDate = v1_AddedDate v1, FirstSeen = [],
                  LastAttempt = v1_LastAttempt v1, Status = [], TorrentID = [],
                  AddedToDeluge = [], RetryCount = v1_RetryCount v1,
                  SavePath = v1_SavePath v1, TorrentName = v1_TorrentName v1\<rparr>
         in (if toAdded then db\<lparr>Added := (Added db)(hash \<mapsto> e)\<rparr>
             else db\<lparr>Retry := (Retry db)(hash \<mapsto> e)\<rparr>, nextID + 1, w')))"

fun migrate_V1 ::
  "bool \<Rightarrow> (string \<times> MagnetEntryV1) list \<Rightarrow> MagnetDatabase \<times> int64 \<times> world \<Rightarrow>
   MagnetDatabase \<times> int64 \<times> world" where
  "migrate_V1 toAdded [] st = st"
| "migrate_V1 toAdded (kv # rest) st = migrate_V1 toAdded rest (migrate_V1_entry toAdded kv st)"

text \<open>
  The body of the read loop once \<^verbatim>\<open>os.ReadFile\<close> has returned the bytes (lines 374-466).
  \<^verbatim>\<open>len(m) > 0\<close> on a map is \<open>m \<noteq> Map.empty\<close>, and \<^verbatim>\<open>len(db.Added) + len(db.Retry) == 0\<close>
  says that both maps are empty. The three decoders run on the same buffer; the second and
  third write into the database the first one left.
\<close>

definition parse_database ::
  "golib \<Rightarrow> bytes \<Rightarrow> MagnetDatabase \<Rightarrow> world \<Rightarrow> (error + MagnetDatabase) \<times> world" where
  "parse_database L data db w =
     (case json_Unmarshal L data db of (err, db1) \<Rightarrow>
        if err = None \<and> (Added db1 \<noteq> Map.empty \<or> Retry db1 \<noteq> Map.empty) then (Inr db1, w)
        else
          (case json_Unmarshal_V0 L data of (errV0, dbV0) \<Rightarrow>
             if errV0 = None \<and> 0 < length dbV0 then
               (case migrate_V0 dbV0 (db1, 1, w) of (db2, nextID, w') \<Rightarrow>
                  (let db3 = db2\<lparr>Metadata := (Metadata db2)\<lparr>LastSequence := nextID - 1\<rparr>\<rparr>
                   in (Inr (db3\<lparr>Metadata := (Metadata db3)\<lparr>Checksum := ComputeChecksum L db3\<rparr>\<rparr>), w')))
             else
               (case json_Unmarshal_V1 L data of (errV1, addedV1, retryV1) \<Rightarrow>
                  if errV1 = None \<and> (0 < length addedV1 \<or> 0 < length retryV1) then
                    (case migrate_V1 False retryV1 (migrate_V1 True addedV1 (db1, 1, w)) of
                       (db2, nextID, w') \<Rightarrow>
                         (let db3 = db2\<lparr>Metadata := (Metadata db2)\<lparr>LastSequence := nextID - 1\<rparr>\<rparr>;
                              db4 = db3\<lparr>Metadata := (Metadata db3)\<lparr>Checksum := ComputeChecksum L db3\<rparr>\<rparr>
                          in if 1024 < length data \<and> Added db4 = Map.empty \<and> Retry db4 = Map.empty
                             then (Inl (Errorf ''V1 parsing failed: 0 entries''), w')
                             else (Inr db4, w')))
                  else (Inl (Errorf ''unrecognized format''), w))))"

text \<open>
  The read loop (lines 364-469), \<^verbatim>\<open>for attempt := 0; attempt < 5; attempt++\<close>. Sleeping
  changes nothing the model holds. On a read error the source returns the empty
  database together with the error; its callers look at the error first.
\<close>

function LoadJSONDatabase_loop ::
  "golib \<Rightarrow> string \<Rightarrow> MagnetDatabase \<Rightarrow> nat \<Rightarrow> world \<Rightarrow> (error + MagnetDatabase) \<times> world" where
  "LoadJSONDatabase_loop L path db attempt w =
     (if attempt < 5 then
        (case os_ReadFile path w of
           (Inl err, w') \<Rightarrow>
             if attempt < 4 then LoadJSONDatabase_loop L path db (attempt + 1) w'
             else (Inl err, w')
         | (Inr data, w') \<Rightarrow> parse_database L data db w')
      else (Inl (Errorf ''failed to load JSON after retries''), w))"
  by pat_completeness auto
termination
  by (relation "measure (\<lambda>(L, path, db, attempt, w). 5 - attempt)") auto

text \<open>\<^verbatim>\<open>LoadJSONDatabase\<close> (lines 352-470): a path that does not exist is an empty database.\<close>

definition LoadJSONDatabase :: "golib \<Rightarrow> string \<Rightarrow> world \<Rightarrow> (error + MagnetDatabase) \<times> world" where
  "LoadJSONDatabase L path w =
     (if files w path = None then (Inr empty_db, w)
      else LoadJSONDatabase_loop L path empty_db 0 w)"

section \<open>Save\<close>

text \<open>
  \<^verbatim>\<open>SaveDatabaseLocal\<close> (lines 610-635). The database is passed by pointer and its
  metadata is updated before anything can fail, so the updated database is returned with
  the error.
\<close>

definition SaveDatabaseLocal ::
  "golib \<Rightarrow> string \<Rightarrow> MagnetDatabase \<Rightarrow> world \<Rightarrow> error option \<times> MagnetDatabase \<times> world" where
  "SaveDatabaseLocal L path db w =
     (let db1 = db\<lparr>Metadata := (Metadata db)\<lparr>LastModified := clock w\<rparr>\<rparr>;
          db2 = db1\<lparr>Metadata := (Metadata db1)\<lparr>Checksum := ComputeChecksum L db1\<rparr>\<rparr>;
          tempPath = path @ ''.tmp''
      in case json_MarshalIndent L db2 of
           Inl msg \<Rightarrow> (Some (JSONError msg), db2, w)
         | Inr data \<Rightarrow>
             (case os_WriteFile tempPath data w of
                (Some err, w1) \<Rightarrow> (Some err, db2, w1)
              | (None, w1) \<Rightarrow>
                  (case os_Rename tempPath path w1 of
                     (Some err, w2) \<Rightarrow> (Some err, db2, os_Remove tempPath w2)
                   | (None, w2) \<Rightarrow> (None, db2, w2))))"

section \<open>Sync orchestrator\<close>

text \<open>
  \<^verbatim>\<open>SyncWithRemote\<close> (lines 559-607). \<open>hs\<close> is the order in which \<^verbatim>\<open>MergeDatabases\<close> visits
  \<^verbatim>\<open>allHashes\<close>, should it run.
\<close>

definition SyncWithRemote ::
  "golib \<Rightarrow> string list \<Rightarrow> string \<Rightarrow> string \<Rightarrow> world \<Rightarrow> (error + MagnetDatabase) \<times> world" where
  "SyncWithRemote L hs localPath remotePath w =
     (case ComputeFileChecksum L localPath w of (localSum, w1) \<Rightarrow>
      case ComputeFileChecksum L remotePath w1 of (remoteSum, w2) \<Rightarrow>
        if (case (localSum, remoteSum) of
              (Inr localFileChecksum, Inr remoteFileChecksum) \<Rightarrow>
                localFileChecksum = remoteFileChecksum \<and> 8 \<le> length localFileChecksum
            | _ \<Rightarrow> False)
        then
          (case LoadJSONDatabase L localPath w2 of
             (Inl err, w3) \<Rightarrow> (Inl (Wrapped ''failed to load local'' err), w3)
           | (Inr loc, w3) \<Rightarrow> (Inr loc, w3))
        else
          (case LoadJSONDatabase L localPath w2 of (localRes, w3) \<Rightarrow>
             (let loc = (case localRes of
                           Inl err \<Rightarrow> \<lparr>Metadata = zero_metadata, Added = Map.empty, Retry = Map.empty\<rparr>
                         | Inr db \<Rightarrow> db)
              in case LoadJSONDatabase L remotePath w3 of
                   (Inl err, w4) \<Rightarrow> (Inr loc, w4)
                 | (Inr remote, w4) \<Rightarrow> (Inr (MergeDatabases L (clock w4) hs loc remote), w4))))"

text \<open>
  The overlay of the caller's updates (lines 667-685). \<open>ua\<close> and \<open>ur\<close> are the orders in
  which \<^verbatim>\<open>range updates.Added\<close> and \<^verbatim>\<open>range updates.Retry\<close> yield their keys;
  \<open>overlay_added\<close> and \<open>overlay_retry\<close> are the bodies of the two loops, with the
  database and \<^verbatim>\<open>nextID\<close> as state.
\<close>

definition overlay_added ::
  "(string \<rightharpoonup> MagnetEntry) \<Rightarrow> string \<Rightarrow> MagnetDatabase \<times> int64 \<Rightarrow> MagnetDatabase \<times> int64" where
  "overlay_added upd hash st =
     (case st of (merged, nextID) \<Rightarrow>
      (case upd hash of
         None \<Rightarrow> (merged, nextID)
       | Some entry \<Rightarrow>
           (let (entry', nextID') =
                  (if ID entry = 0 then (entry\<lparr>ID := nextID\<rparr>, nextID + 1) else (entry, nextID))
            in (merged\<lparr>Added := (Added merged)(hash \<mapsto> entry'),
                       Retry := (Retry merged)(hash := None)\<rparr>, nextID'))))"

definition overlay_retry ::
  "(string \<rightharpoonup> MagnetEntry) \<Rightarrow> string \<Rightarrow> MagnetDatabase \<times> int64 \<Rightarrow> MagnetDatabase \<times> int64" where
  "overlay_retry upd hash st =
     (case st of (merged, nextID) \<Rightarrow>
      (case upd hash of
         None \<Rightarrow> (merged, nextID)
       | Some entry \<Rightarrow>
           (let (entry', nextID') =
                  (if ID entry = 0 then (entry\<lparr>ID := nextID\<rparr>, nextID + 1) else (entry, nextID))
            in (merged\<lparr>Retry := (Retry merged)(hash \<mapsto> entry')\<rparr>, nextID'))))"

fun apply_added ::
  "(string \<rightharpoonup> MagnetEntry) \<Rightarrow> string list \<Rightarrow> MagnetDatabase \<times> int64 \<Rightarrow> MagnetDatabase \<times> int64" where
  "apply_added upd [] st = st"
| "apply_added upd (hash # rest) st = apply_added upd rest (overlay_added upd hash st)"

fun apply_retry ::
  "(string \<rightharpoonup> MagnetEntry) \<Rightarrow> string list \<Rightarrow> MagnetDatabase \<times> int64 \<Rightarrow> MagnetDatabase \<times> int64" where
  "apply_retry upd [] st = st"
| "apply_retry upd (hash # rest) st = apply_retry upd rest (overlay_retry upd hash st)"

definition apply_updates ::
  "string list \<Rightarrow> string list \<Rightarrow> MagnetDatabase \<Rightarrow> MagnetDatabase \<Rightarrow> MagnetDatabase" where
  "apply_updates ua ur updates merged =
     (case apply_retry (Retry updates) ur
             (apply_added (Added updates) ua (merged, LastSequence (Metadata merged) + 1)) of
        (merged', nextID) \<Rightarrow> merged'\<lparr>Metadata := (Metadata merged')\<lparr>LastSequence := nextID - 1\<rparr>\<rparr>)"

text \<open>
  \<^verbatim>\<open>GetDefaultRemotePath\<close> is chosen by build tag: \<^verbatim>\<open>register_windows.go\<close> returns the
  network drive, the Unix file returns the empty string. \<^verbatim>\<open>GetRemotePath\<close> (lines
  128-133) takes a \<^verbatim>\<open>*Config\<close>, which may be nil.
\<close>

datatype platform = Windows | Unix

record Config =
  DelugeHost :: string
  DelugePort :: string
  DelugePassword :: string
  DelugeLabel :: string
  JSONPath :: string
  RemotePath :: string

fun GetDefaultRemotePath :: "platform \<Rightarrow> string" where
  "GetDefaultRemotePath Windows = ''W:'' @ [CHR 0x5C] @ ''magnet-list-network.json''"
| "GetDefaultRemotePath Unix = []"

definition GetRemotePath :: "platform \<Rightarrow> Config option \<Rightarrow> string" where
  "GetRemotePath os config =
     (case config of
        Some c \<Rightarrow> if RemotePath c \<noteq> [] then RemotePath c else GetDefaultRemotePath os
      | None \<Rightarrow> GetDefaultRemotePath os)"

text \<open>\<^verbatim>\<open>SaveJSONDatabase\<close> (lines 638-704).\<close>

definition SaveJSONDatabase ::
  "golib \<Rightarrow> platform \<Rightarrow> string list \<Rightarrow> string list \<Rightarrow> string list \<Rightarrow>
   string \<Rightarrow> MagnetDatabase \<Rightarrow> Config option \<Rightarrow> world \<Rightarrow> error option \<times> world" where
  "SaveJSONDatabase L os hs ua ur localPath updates config w =
     (let remotePath = GetRemotePath os config;
          (merged0, w3) =
            (case SyncWithRemote L hs localPath remotePath w of
               (Inr m, w1) \<Rightarrow> (m, w1)
             | (Inl err, w1) \<Rightarrow>
                 (case LoadJSONDatabase L localPath w1 of
                    (Inr m, w2) \<Rightarrow> (m, w2)
                  | (Inl err2, w2) \<Rightarrow> (empty_db, w2)));
          (merged1, w5) =
            (if Added merged0 = Map.empty \<and> Retry merged0 = Map.empty \<and> remotePath \<noteq> [] then
               (case LoadJSONDatabase L remotePath w3 of
                  (Inr remote, w4) \<Rightarrow>
                    if Added remote \<noteq> Map.empty \<or> Retry remote \<noteq> Map.empty then (remote, w4)
                    else (merged0, w4)
                | (Inl err, w4) \<Rightarrow> (merged0, w4))
             else (merged0, w3))
      in (case SaveDatabaseLocal L localPath (apply_updates ua ur updates merged1) w5 of
            (Some err, merged2, w6) \<Rightarrow> (Some (Wrapped ''failed to save local'' err), w6)
          | (None, merged2, w6) \<Rightarrow>
              if remotePath \<noteq> [] then
                (case SaveDatabaseLocal L remotePath merged2 w6 of (err, merged3, w7) \<Rightarrow> (None, w7))
              else (None, w6)))"

section \<open>Magnet URI\<close>

text \<open>
  \<^verbatim>\<open>ExtractMagnetHash\<close> (lines 308-316). The regular expression is
  \<^verbatim>\<open>xt=urn:btih:([a-fA-F0-9]{40}|[a-zA-Z0-9]{32})\<close>. Go's \<^verbatim>\<open>regexp\<close> returns the leftmost
  match and, at that position, prefers the first alternative that matches.
  \<^verbatim>\<open>FindStringSubmatch\<close> returns nil without a match and otherwise the whole match followed
  by the group. \<^verbatim>\<open>strings.ToLower\<close> is applied to the group only, which is ASCII.
\<close>

definition is_digit :: "char \<Rightarrow> bool" where
  "is_digit c = (CHR ''0'' \<le> c \<and> c \<le> CHR ''9'')"

definition is_hex :: "char \<Rightarrow> bool" where
  "is_hex c = ((CHR ''a'' \<le> c \<and> c \<le> CHR ''f'') \<or> (CHR ''A'' \<le> c \<and> c \<le> CHR ''F'') \<or> is_digit c)"

definition is_alnum :: "char \<Rightarrow> bool" where
  "is_alnum c = ((CHR ''a'' \<le> c \<and> c \<le> CHR ''z'') \<or> (CHR ''A'' \<le> c \<and> c \<le> CHR ''Z'') \<or> is_digit c)"

definition btih_group :: "string \<Rightarrow> string option" where
  "btih_group s =
     (if 40 \<le> length s \<and> list_all is_hex (take 40 s) then Some (take 40 s)
      else if 32 \<le> length s \<and> list_all is_alnum (take 32 s) then Some (take 32 s)
      else None)"

definition match_here :: "string \<Rightarrow> string list" where
  "match_here s =
     (if take 12 s = ''xt=urn:btih:'' then
        (case btih_group (drop 12 s) of
           None \<Rightarrow> []
         | Some g \<Rightarrow> [''xt=urn:btih:'' @ g, g])
      else [])"

fun FindStringSubmatch :: "string \<Rightarrow> string list" where
  "FindStringSubmatch [] = match_here []"
| "FindStringSubmatch (c # cs) =
     (if match_here (c # cs) \<noteq> [] then match_here (c # cs) else FindStringSubmatch cs)"

definition to_lower :: "char \<Rightarrow> char" where
  "to_lower c = (if CHR ''A'' \<le> c \<and> c \<le> CHR ''Z'' then char_of (of_char c + (32::nat)) else c)"

definition strings_ToLower :: "string \<Rightarrow> string" where
  "strings_ToLower s = map to_lower s"

definition ExtractMagnetHash :: "string \<Rightarrow> string" where
  "ExtractMagnetHash uri =
     (let matches = FindStringSubmatch uri
      in if 1 < length matches then strings_ToLower (matches ! 1) else [])"

text \<open>The characters a lower-cased group can hold.\<close>

definition is_lower_hex :: "char \<Rightarrow> bool" where
  "is_lower_hex c = ((CHR ''a'' \<le> c \<and> c \<le> CHR ''f'') \<or> is_digit c)"

definition is_lower_alnum :: "char \<Rightarrow> bool" where
  "is_lower_alnum c = ((CHR ''a'' \<le> c \<and> c \<le> CHR ''z'') \<or> is_digit c)"

section \<open>encoding/json on the program's types\<close>

text \<open>
  What \<^verbatim>\<open>encoding/json\<close> does with the structs of lines 34-99 is fixed by their field
  tags. It is written here in two layers. The text layer, the bytes printed for a JSON
  value and the value scanned from bytes, is a parameter; a buffer that is not valid JSON
  is rejected before anything is stored. \<open>JNumber\<close> is a number written as an integer,
  \<open>JReal\<close> one written with a fraction or an exponent. The members of an object are
  kept in the order of the document.
\<close>

datatype json =
    JNull
  | JBool bool
  | JNumber int
  | JReal
  | JString string
  | JArray "json list"
  | JObject "(string \<times> json) list"

record jsontext =
  text_Marshal :: "json \<Rightarrow> bytes"
  text_MarshalIndent :: "json \<Rightarrow> bytes"
  text_Unmarshal :: "bytes \<Rightarrow> string + json"

text \<open>
  Encoding. A struct is an object with one member per field, named by the tag, in the
  order of declaration; a field tagged \<^verbatim>\<open>omitempty\<close> is left out when it is the empty
  string or zero. A map is an object whose keys are sorted.
\<close>

definition omitempty_string :: "string \<Rightarrow> string \<Rightarrow> (string \<times> json) list" where
  "omitempty_string name s = (if s = [] then [] else [(name, JString s)])"

definition omitempty_int :: "string \<Rightarrow> int64 \<Rightarrow> (string \<times> json) list" where
  "omitempty_int name n = (if n = 0 then [] else [(name, JNumber (sint n))])"

definition MagnetEntry_json :: "MagnetEntry \<Rightarrow> json" where
  "MagnetEntry_json e =
     JObject ([(''uuid'', JString (UUID e))] @
              omitempty_int ''id'' (ID e) @
              [(''title'', JString (Title e)),
               (''hash'', JString (Hash e)),
               (''uri'', JString (URI e)),
               (''added_date'', JString (AddedDate e))] @
              omitempty_string ''first_seen'' (FirstSeen e) @
              omitempty_string ''last_attempt'' (LastAttempt e) @
              omitempty_string ''status'' (Status e) @
              omitempty_string ''torrent_id'' (TorrentID e) @
              omitempty_string ''added_to_deluge'' (AddedToDeluge e) @
              omitempty_int ''retry_count'' (RetryCount e) @
              omitempty_string ''save_path'' (SavePath e) @
              omitempty_string ''torrent_name'' (TorrentName e))"

definition DatabaseMetadata_json :: "DatabaseMetadata \<Rightarrow> json" where
  "DatabaseMetadata_json m =
     JObject [(''last_sequence'', JNumber (sint (LastSequence m))),
              (''last_modified'', JString (LastModified m)),
              (''checksum'', JString (Checksum m))]"

definition map_json :: "(string \<rightharpoonup> MagnetEntry) \<Rightarrow> json" where
  "map_json m =
     JObject (map (\<lambda>k. (k, case m k of None \<Rightarrow> JNull | Some e \<Rightarrow> MagnetEntry_json e))
                  (sorted_list_of_set (dom m)))"

definition MagnetDatabase_json :: "MagnetDatabase \<Rightarrow> json" where
  "MagnetDatabase_json db =
     JObject [(''metadata'', DatabaseMetadata_json (Metadata db)),
              (''added'', map_json (Added db)),
              (''retry'', map_json (Retry db))]"

text \<open>
  Decoding stores the members of an object one after the other into the value it is
  given. A member is stored in the field whose tag is its name, letter case ignored
  (the tags are lower case), and skipped when there is none; \<^verbatim>\<open>null\<close> leaves a string
  or an integer as it is; a value of the wrong type, or an integer outside 64 bits, is
  skipped and reported once the whole document has been decoded, the first such error
  being the one returned.
\<close>

definition first_error :: "string option \<Rightarrow> string option \<Rightarrow> string option" where
  "first_error saved err = (case saved of None \<Rightarrow> err | Some e \<Rightarrow> Some e)"

definition string_of_json :: "json \<Rightarrow> string \<Rightarrow> string option \<times> string" where
  "string_of_json v old =
     (case v of
        JString s \<Rightarrow> (None, s)
      | JNull \<Rightarrow> (None, old)
      | _ \<Rightarrow> (Some ''json: cannot unmarshal into Go value of type string'', old))"

definition int64_of_json :: "json \<Rightarrow> int64 \<Rightarrow> string option \<times> int64" where
  "int64_of_json v old =
     (case v of
        JNumber n \<Rightarrow>
          if - (2 ^ 63) \<le> n \<and> n < 2 ^ 63 then (None, word_of_int n)
          else (Some ''json: cannot unmarshal number into Go value of type int64'', old)
      | JNull \<Rightarrow> (None, old)
      | _ \<Rightarrow> (Some ''json: cannot unmarshal into Go value of type int64'', old))"

definition float64_of_json :: "json \<Rightarrow> string option" where
  "float64_of_json v =
     (case v of
        JNumber n \<Rightarrow> None
      | JReal \<Rightarrow> None
      | JNull \<Rightarrow> None
      | _ \<Rightarrow> Some ''json: cannot unmarshal into Go value of type float64'')"

definition MagnetEntry_field ::
  "string \<times> json \<Rightarrow> string option \<times> MagnetEntry \<Rightarrow> string option \<times> MagnetEntry" where
  "MagnetEntry_field kv st =
     (case kv of (key, v) \<Rightarrow>
      case st of (saved, e) \<Rightarrow>
        (let name = strings_ToLower key in
         if name = ''uuid'' then
           (case string_of_json v (UUID e) of (err, s) \<Rightarrow> (first_error saved err, e\<lparr>UUID := s\<rparr>))
         else if name = ''id'' then
           (case int64_of_json v (ID e) of (err, n) \<Rightarrow> (first_error saved err, e\<lparr>ID := n\<rparr>))
         else if name = ''title'' then
           (case string_of_json v (Title e) of (err, s) \<Rightarrow> (first_error saved err, e\<lparr>Title := s\<rparr>))
         else if name = ''hash'' then
           (case string_of_json v (Hash e) of (err, s) \<Rightarrow> (first_error saved err, e\<lparr>Hash := s\<rparr>))
         else if name = ''uri'' then
           (case string_of_json v (URI e) of (err, s) \<Rightarrow> (first_error saved err, e\<lparr>URI := s\<rparr>))
         else if name = ''added_date'' then
           (case string_of_json v (AddedDate e) of (err, s) \<Rightarrow>
              (first_error saved err, e\<lparr>AddedDate := s\<rparr>))
         else if name = ''first_seen'' then
           (case string_of_json v (FirstSeen e) of (err, s) \<Rightarrow>
              (first_error saved err, e\<lparr>FirstSeen := s\<rparr>))
         else if name = ''last_attempt'' then
           (case string_of_json v (LastAttempt e) of (err, s) \<Rightarrow>
              (first_error saved err, e\<lparr>LastAttempt := s\<rparr>))
         else if name = ''status'' then
           (case string_of_json v (Status e) of (err, s) \<Rightarrow> (first_error saved err, e\<lparr>Status := s\<rparr>))
         else if name = ''torrent_id'' then
           (case string_of_json v (TorrentID e) of (err, s) \<Rightarrow>
              (first_error saved err, e\<lparr>TorrentID := s\<rparr>))
         else if name = ''added_to_deluge'' then
           (case string_of_json v (AddedToDeluge e) of (err, s) \<Rightarrow>
              (first_error saved err, e\<lparr>AddedToDeluge := s\<rparr>))
         else if name = ''retry_count'' then
           (case int64_of_json v (RetryCount e) of (err, n) \<Rightarrow>
              (first_error saved err, e\<lparr>RetryCount := n\<rparr>))
         else if name = ''save_path'' then
           (case string_of_json v (SavePath e) of (err, s) \<Rightarrow>
              (first_error saved err, e\<lparr>SavePath := s\<rparr>))
         else if name = ''torrent_name'' then
           (case string_of_json v (TorrentName e) of (err, s) \<Rightarrow>
              (first_error saved err, e\<lparr>TorrentName := s\<rparr>))
         else (saved, e)))"

definition MagnetEntry_of_json :: "json \<Rightarrow> MagnetEntry \<Rightarrow> string option \<times> MagnetEntry" where
  "MagnetEntry_of_json v e =
     (case v of
        JObject members \<Rightarrow> fold MagnetEntry_field members (None, e)
      | JNull \<Rightarrow> (None, e)
      | _ \<Rightarrow> (Some ''json: cannot unmarshal into Go value of type main.MagnetEntry'', e))"

text \<open>
  Every element of a map is decoded into a fresh zero value and stored under its key,
  also when the element had an error; the entries the map already has stay, and
  \<^verbatim>\<open>null\<close> makes the map nil.
\<close>

definition map_member ::
  "string \<times> json \<Rightarrow> string option \<times> (string \<rightharpoonup> MagnetEntry) \<Rightarrow>
   string option \<times> (string \<rightharpoonup> MagnetEntry)" where
  "map_member kv st =
     (case kv of (key, v) \<Rightarrow>
      case st of (saved, m) \<Rightarrow>
      case MagnetEntry_of_json v zero_entry of (err, e) \<Rightarrow>
        (first_error saved err, m(key \<mapsto> e)))"

definition map_of_json ::
  "json \<Rightarrow> (string \<rightharpoonup> MagnetEntry) \<Rightarrow> string option \<times> (string \<rightharpoonup> MagnetEntry)" where
  "map_of_json v m =
     (case v of
        JObject members \<Rightarrow> fold map_member members (None, m)
      | JNull \<Rightarrow> (None, Map.empty)
      | _ \<Rightarrow> (Some ''json: cannot unmarshal into Go value of type map[string]main.MagnetEntry'', m))"

definition DatabaseMetadata_field ::
  "string \<times> json \<Rightarrow> string option \<times> DatabaseMetadata \<Rightarrow> string option \<times> DatabaseMetadata" where
  "DatabaseMetadata_field kv st =
     (case kv of (key, v) \<Rightarrow>
      case st of (saved, m) \<Rightarrow>
        (let name = strings_ToLower key in
         if name = ''last_sequence'' then
           (case int64_of_json v (LastSequence m) of (err, n) \<Rightarrow>
              (first_error saved err, m\<lparr>LastSequence := n\<rparr>))
         else if name = ''last_modified'' then
           (case string_of_json v (LastModified m) of (err, s) \<Rightarrow>
              (first_error saved err, m\<lparr>LastModified := s\<rparr>))
         else if name = ''checksum'' then
           (case string_of_json v (Checksum m) of (err, s) \<Rightarrow>
              (first_error saved err, m\<lparr>Checksum := s\<rparr>))
         else (saved, m)))"

definition DatabaseMetadata_of_json ::
  "json \<Rightarrow> DatabaseMetadata \<Rightarrow> string option \<times> DatabaseMetadata" where
  "DatabaseMetadata_of_json v m =
     (case v of
        JObject members \<Rightarrow> fold DatabaseMetadata_field members (None, m)
      | JNull \<Rightarrow> (None, m)
      | _ \<Rightarrow> (Some ''json: cannot unmarshal into Go value of type main.DatabaseMetadata'', m))"

definition MagnetDatabase_field ::
  "string \<times> json \<Rightarrow> string option \<times> MagnetDatabase \<Rightarrow> string option \<times> MagnetDatabase" where
  "MagnetDatabase_field kv st =
     (case kv of (key, v) \<Rightarrow>
      case st of (saved, db) \<Rightarrow>
        (let name = strings_ToLower key in
         if name = ''metadata'' then
           (case DatabaseMetadata_of_json v (Metadata db) of (err, m) \<Rightarrow>
              (first_error saved err, db\<lparr>Metadata := m\<rparr>))
         else if name = ''added'' then
           (case map_of_json v (Added db) of (err, m) \<Rightarrow> (first_error saved err, db\<lparr>Added := m\<rparr>))
         else if name = ''retry'' then
           (case map_of_json v (Retry db) of (err, m) \<Rightarrow> (first_error saved err, db\<lparr>Retry := m\<rparr>))
         else (saved, db)))"

definition MagnetDatabase_of_json ::
  "json \<Rightarrow> MagnetDatabase \<Rightarrow> string option \<times> MagnetDatabase" where
  "MagnetDatabase_of_json v db =
     (case v of
        JObject members \<Rightarrow> fold MagnetDatabase_field members (None, db)
      | JNull \<Rightarrow> (None, db)
      | _ \<Rightarrow> (Some ''json: cannot unmarshal into Go value of type main.MagnetDatabase'', db))"

text \<open>
  The legacy types (lines 68-99). V0's \<^verbatim>\<open>progress\<close> is a \<^verbatim>\<open>float64\<close>: any number is
  accepted and the value is dropped. A decoded legacy map is listed in the order of the
  document, one of the orders in which \<^verbatim>\<open>range\<close> may visit it.
\<close>

definition zero_entryV0 :: MagnetEntryV0 where
  "zero_entryV0 = \<lparr>v0_Hash = [], v0_Title = [], v0_URI = [], v0_TorrentName = [],
     v0_SavePath = [], v0_State = [], v0_Status = [], v0_TorrentID = [],
     v0_AddedToDeluge = [], v0_FirstSeen = [], v0_LastAttempt = [], v0_Backfilled = []\<rparr>"

definition zero_entryV1 :: MagnetEntryV1 where
  "zero_entryV1 = \<lparr>v1_Title = [], v1_Hash = [], v1_URI = [], v1_AddedDate = [],
     v1_LastAttempt = [], v1_RetryCount = 0, v1_SavePath = [], v1_TorrentName = []\<rparr>"

definition MagnetEntryV0_field ::
  "string \<times> json \<Rightarrow> string option \<times> MagnetEntryV0 \<Rightarrow> string option \<times> MagnetEntryV0" where
  "MagnetEntryV0_field kv st =
     (case kv of (key, v) \<Rightarrow>
      case st of (saved, e) \<Rightarrow>
        (let name = strings_ToLower key in
         if name = ''hash'' then
           (case string_of_json v (v0_Hash e) of (err, s) \<Rightarrow> (first_error saved err, e\<lparr>v0_Hash := s\<rparr>))
         else if name = ''title'' then
           (case string_of_json v (v0_Title e) of (err, s) \<Rightarrow>
              (first_error saved err, e\<lparr>v0_Title := s\<rparr>))
         else if name = ''uri'' then
           (case string_of_json v (v0_URI e) of (err, s) \<Rightarrow> (first_error saved err, e\<lparr>v0_URI := s\<rparr>))
         else if name = ''torrent_name'' then
           (case string_of_json v (v0_TorrentName e) of (err, s) \<Rightarrow>
              (first_error saved err, e\<lparr>v0_TorrentName := s\<rparr>))
         else if name = ''save_path'' then
           (case string_of_json v (v0_SavePath e) of (err, s) \<Rightarrow>
              (first_error saved err, e\<lparr>v0_SavePath := s\<rparr>))
         else if name = ''state'' then
           (case string_of_json v (v0_State e) of (err, s) \<Rightarrow>
              (first_error saved err, e\<lparr>v0_State := s\<rparr>))
         else if name = ''progress'' then (first_error saved (float64_of_json v), e)
         else if name = ''status'' then
           (case string_of_json v (v0_Status e) of (err, s) \<Rightarrow>
              (first_error saved err, e\<lparr>v0_Status := s\<rparr>))
         else if name = ''torrent_id'' then
           (case string_of_json v (v0_TorrentID e) of (err, s) \<Rightarrow>
              (first_error saved err, e\<lparr>v0_TorrentID := s\<rparr>))
         else if name = ''added_to_deluge'' then
           (case string_of_json v (v0_AddedToDeluge e) of (err, s) \<Rightarrow>
              (first_error saved err, e\<lparr>v0_AddedToDeluge := s\<rparr>))
         else if name = ''first_seen'' then
           (case string_of_json v (v0_FirstSeen e) of (err, s) \<Rightarrow>
              (first_error saved err, e\<lparr>v0_FirstSeen := s\<rparr>))
         else if name = ''last_attempt'' then
           (case string_of_json v (v0_LastAttempt e) of (err, s) \<Rightarrow>
              (first_error saved err, e\<lparr>v0_LastAttempt := s\<rparr>))
         else if name = ''backfilled'' then
           (case string_of_json v (v0_Backfilled e) of (err, s) \<Rightarrow>
              (first_error saved err, e\<lparr>v0_Backfilled := s\<rparr>))
         else (saved, e)))"

definition MagnetEntryV0_of_json :: "json \<Rightarrow> MagnetEntryV0 \<Rightarrow> string option \<times> MagnetEntryV0" where
  "MagnetEntryV0_of_json v e =
     (case v of
        JObject members \<Rightarrow> fold MagnetEntryV0_field members (None, e)
      | JNull \<Rightarrow> (None, e)
      | _ \<Rightarrow> (Some ''json: cannot unmarshal into Go value of type main.MagnetEntryV0'', e))"

definition mapV0_member ::
  "string \<times> json \<Rightarrow> string option \<times> (string \<times> MagnetEntryV0) list \<Rightarrow>
   string option \<times> (string \<times> MagnetEntryV0) list" where
  "mapV0_member kv st =
     (case kv of (key, v) \<Rightarrow>
      case st of (saved, m) \<Rightarrow>
      case MagnetEntryV0_of_json v zero_entryV0 of (err, e) \<Rightarrow>
        (first_error saved err, AList.update key e m))"

definition mapV0_of_json :: "json \<Rightarrow> string option \<times> (string \<times> MagnetEntryV0) list" where
  "mapV0_of_json v =
     (case v of
        JObject members \<Rightarrow> fold mapV0_member members (None, [])
      | JNull \<Rightarrow> (None, [])
      | _ \<Rightarrow> (Some ''json: cannot unmarshal into Go value of type map[string]main.MagnetEntryV0'', []))"

definition MagnetEntryV1_field ::
  "string \<times> json \<Rightarrow> string option \<times> MagnetEntryV1 \<Rightarrow> string option \<times> MagnetEntryV1" where
  "MagnetEntryV1_field kv st =
     (case kv of (key, v) \<Rightarrow>
      case st of (saved, e) \<Rightarrow>
        (let name = strings_ToLower key in
         if name = ''title'' then
           (case string_of_json v (v1_Title e) of (err, s) \<Rightarrow>
              (first_error saved err, e\<lparr>v1_Title := s\<rparr>))
         else if name = ''hash'' then
           (case string_of_json v (v1_Hash e) of (err, s) \<Rightarrow> (first_error saved err, e\<lparr>v1_Hash := s\<rparr>))
         else if name = ''uri'' then
           (case string_of_json v (v1_URI e) of (err, s) \<Rightarrow> (first_error saved err, e\<lparr>v1_URI := s\<rparr>))
         else if name = ''added_date'' then
           (case string_of_json v (v1_AddedDate e) of (err, s) \<Rightarrow>
              (first_error saved err, e\<lparr>v1_AddedDate := s\<rparr>))
         else if name = ''last_attempt'' then
           (case string_of_json v (v1_LastAttempt e) of (err, s) \<Rightarrow>
              (first_error saved err, e\<lparr>v1_LastAttempt := s\<rparr>))
         else if name = ''retry_count'' then
           (case int64_of_json v (v1_RetryCount e) of (err, n) \<Rightarrow>
              (first_error saved err, e\<lparr>v1_RetryCount := n\<rparr>))
         else if name = ''save_path'' then
           (case string_of_json v (v1_SavePath e) of (err, s) \<Rightarrow>
              (first_error saved err, e\<lparr>v1_SavePath := s\<rparr>))
         else if name = ''torrent_name'' then
           (case string_of_json v (v1_TorrentName e) of (err, s) \<Rightarrow>
              (first_error saved err, e\<lparr>v1_TorrentName := s\<rparr>))
         else (saved, e)))"

definition MagnetEntryV1_of_json :: "json \<Rightarrow> MagnetEntryV1 \<Rightarrow> string option \<times> MagnetEntryV1" where
  "MagnetEntryV1_of_json v e =
     (case v of
        JObject members \<Rightarrow> fold MagnetEntryV1_field members (None, e)
      | JNull \<Rightarrow> (None, e)
      | _ \<Rightarrow> (Some ''json: cannot unmarshal into Go value of type main.MagnetEntryV1'', e))"

definition mapV1_member ::
  "string \<times> json \<Rightarrow> string option \<times> (string \<times> MagnetEntryV1) list \<Rightarrow>
   string option \<times> (string \<times> MagnetEntryV1) list" where
  "mapV1_member kv st =
     (case kv of (key, v) \<Rightarrow>
      case st of (saved, m) \<Rightarrow>
      case MagnetEntryV1_of_json v zero_entryV1 of (err, e) \<Rightarrow>
        (first_error saved err, AList.update key e m))"

definition mapV1_of_json ::
  "json \<Rightarrow> (string \<times> MagnetEntryV1) list \<Rightarrow> string option \<times> (string \<times> MagnetEntryV1) list" where
  "mapV1_of_json v m =
     (case v of
        JObject members \<Rightarrow> fold mapV1_member members (None, m)
      | JNull \<Rightarrow> (None, [])
      | _ \<Rightarrow> (Some ''json: cannot unmarshal into Go value of type map[string]main.MagnetEntryV1'', m))"

definition MagnetDatabaseV1_field ::
  "string \<times> json \<Rightarrow>
   string option \<times> (string \<times> MagnetEntryV1) list \<times> (string \<times> MagnetEntryV1) list \<Rightarrow>
   string option \<times> (string \<times> MagnetEntryV1) list \<times> (string \<times> MagnetEntryV1) list" where
  "MagnetDatabaseV1_field kv st =
     (case kv of (key, v) \<Rightarrow>
      case st of (saved, added, retry) \<Rightarrow>
        (let name = strings_ToLower key in
         if name = ''added'' then
           (case mapV1_of_json v added of (err, m) \<Rightarrow> (first_error saved err, m, retry))
         else if name = ''retry'' then
           (case mapV1_of_json v retry of (err, m) \<Rightarrow> (first_error saved err, added, m))
         else (saved, added, retry)))"

definition MagnetDatabaseV1_of_json ::
  "json \<Rightarrow> string option \<times> (string \<times> MagnetEntryV1) list \<times> (string \<times> MagnetEntryV1) list" where
  "MagnetDatabaseV1_of_json v =
     (case v of
        JObject members \<Rightarrow> fold MagnetDatabaseV1_field members (None, [], [])
      | JNull \<Rightarrow> (None, [], [])
      | _ \<Rightarrow> (Some ''json: cannot unmarshal into Go value of type main.MagnetDatabaseV1'', [], []))"

text \<open>
  The library interface of the program, built from a text layer and a digest.
  \<^verbatim>\<open>json.Marshal\<close> and \<^verbatim>\<open>json.MarshalIndent\<close> cannot fail on these types.
\<close>

definition encoding_json :: "jsontext \<Rightarrow> (bytes \<Rightarrow> 160 word) \<Rightarrow> golib" where
  "encoding_json T sha =
     \<lparr>json_Marshal = (\<lambda>db. Inr (text_Marshal T (MagnetDatabase_json db))),
      json_MarshalIndent = (\<lambda>db. Inr (text_MarshalIndent T (MagnetDatabase_json db))),
      json_Unmarshal = (\<lambda>data db.
         case text_Unmarshal T data of
           Inl msg \<Rightarrow> (Some msg, db)
         | Inr v \<Rightarrow> MagnetDatabase_of_json v db),
      json_Unmarshal_V0 = (\<lambda>data.
         case text_Unmarshal T data of
           Inl msg \<Rightarrow> (Some msg, [])
         | Inr v \<Rightarrow> mapV0_of_json v),
      json_Unmarshal_V1 = (\<lambda>data.
         case text_Unmarshal T data of
           Inl msg \<Rightarrow> (Some msg, [], [])
         | Inr v \<Rightarrow> MagnetDatabaseV1_of_json v),
      sha1_Sum = sha\<rparr>"

section \<open>Predicates of load and save\<close>

text \<open>
  The three acceptance tests of \<^verbatim>\<open>LoadJSONDatabase\<close> on a buffer, as the source writes
  them: the decoder returns no error and at least one entry. The first decoder writes
  into the fresh database of line 353. The two format errors are the values returned at
  lines 448 and 466.
\<close>

definition accepted_current :: "golib \<Rightarrow> bytes \<Rightarrow> bool" where
  "accepted_current L data =
     (case json_Unmarshal L data empty_db of
        (err, db1) \<Rightarrow> err = None \<and> (Added db1 \<noteq> Map.empty \<or> Retry db1 \<noteq> Map.empty))"

definition accepted_V0 :: "golib \<Rightarrow> bytes \<Rightarrow> bool" where
  "accepted_V0 L data =
     (case json_Unmarshal_V0 L data of (errV0, dbV0) \<Rightarrow> errV0 = None \<and> 0 < length dbV0)"

definition accepted_V1 :: "golib \<Rightarrow> bytes \<Rightarrow> bool" where
  "accepted_V1 L data =
     (case json_Unmarshal_V1 L data of
        (errV1, addedV1, retryV1) \<Rightarrow> errV1 = None \<and> (0 < length addedV1 \<or> 0 < length retryV1))"

definition is_format_error :: "error + MagnetDatabase \<Rightarrow> bool" where
  "is_format_error r =
     (r = Inl (Errorf ''unrecognized format'') \<or> r = Inl (Errorf ''V1 parsing failed: 0 entries''))"







section \<open>Predicates of the sequence counter\<close>

text \<open>
  \<open>ids_covered\<close> is the data model's invariant: \<^verbatim>\<open>metadata.last_sequence\<close> is at least
  every id stored in either map (signed comparison). \<open>presets_covered\<close> says that every
  update entry that already carries an id carries one the reconciled counter covers.
  \<open>merge_fits\<close> and \<open>overlay_fits\<close> say that the counter cannot leave the range of
  \<^verbatim>\<open>int64\<close> during the loops: each of the \<open>length hs\<close> iterations adds at most one.
\<close>

definition ids_covered :: "MagnetDatabase \<Rightarrow> bool" where
  "ids_covered db =
     (\<forall>h e. Added db h = Some e \<or> Retry db h = Some e \<longrightarrow> ID e \<le>s LastSequence (Metadata db))"

definition presets_covered :: "MagnetDatabase \<Rightarrow> MagnetDatabase \<Rightarrow> bool" where
  "presets_covered updates merged =
     (\<forall>h e. (Added updates h = Some e \<or> Retry updates h = Some e) \<and> ID e \<noteq> 0
        \<longrightarrow> ID e \<le>s LastSequence (Metadata merged))"

definition input_ids_below :: "MagnetDatabase \<Rightarrow> MagnetDatabase \<Rightarrow> int \<Rightarrow> bool" where
  "input_ids_below loc remote b =
     (\<forall>h e. Added loc h = Some e \<or> Retry loc h = Some e \<or>
             Added remote h = Some e \<or> Retry remote h = Some e \<longrightarrow> sint (ID e) < b)"

definition merge_fits :: "string list \<Rightarrow> MagnetDatabase \<Rightarrow> MagnetDatabase \<Rightarrow> bool" where
  "merge_fits hs loc remote =
     (int (length hs) < 2^63 - 1 \<and> input_ids_below loc remote (2^63 - 1 - int (length hs)))"

definition overlay_fits :: "string list \<Rightarrow> string list \<Rightarrow> MagnetDatabase \<Rightarrow> bool" where
  "overlay_fits ua ur merged =
     (sint (LastSequence (Metadata merged)) + int (length ua) + int (length ur) < 2^63 - 1)"

text \<open>
  Loop invariants. In the merge loop every id stored so far is below \<^verbatim>\<open>nextID\<close>, which
  is at least 1 and can still be incremented \<open>k\<close> times; in the overlay loops \<^verbatim>\<open>nextID\<close>
  is at least \<open>lo\<close>.
\<close>

definition merge_inv :: "nat \<Rightarrow> MagnetDatabase \<times> int64 \<Rightarrow> bool" where
  "merge_inv k st =
     (1 \<le> sint (snd st) \<and> sint (snd st) + int k \<le> 2^63 - 1 \<and>
      (\<forall>h e. Added (fst st) h = Some e \<or> Retry (fst st) h = Some e \<longrightarrow> sint (ID e) < sint (snd st)))"

definition overlay_inv :: "int \<Rightarrow> nat \<Rightarrow> MagnetDatabase \<times> int64 \<Rightarrow> bool" where
  "overlay_inv lo k st = (lo \<le> sint (snd st) \<and> sint (snd st) + int k \<le> 2^63 - 1)"

definition stored_below :: "MagnetDatabase \<times> int64 \<Rightarrow> bool" where
  "stored_below st =
     (\<forall>h e. Added (fst st) h = Some e \<or> Retry (fst st) h = Some e \<longrightarrow> sint (ID e) < sint (snd st))"

section \<open>Concrete inputs\<close>

text \<open>
  The values at which the theorems below are evaluated. \<open>lib0\<close> is a small instance of
  the library interface that knows two documents: \<^verbatim>\<open>{}\<close>, which every decoder accepts
  without finding an entry, as \<^verbatim>\<open>encoding/json\<close> does, and \<open>doc1\<close>, which stands for the
  bytes written for \<open>db1_saved\<close>; every other buffer is a syntax error for all three
  decoders. Its digest is constant.
\<close>

definition mk_entry :: "string \<Rightarrow> int64 \<Rightarrow> string \<Rightarrow> MagnetEntry" where
  "mk_entry h i t = zero_entry\<lparr>ID := i, Title := t, Hash := h\<rparr>"

definition now0 :: string where
  "now0 = ''2024-01-01T00:00:00Z''"

definition doc1 :: bytes where
  "doc1 = ''{ metadata, added: hash1 (id 1), retry: - }''"

definition db1 :: MagnetDatabase where
  "db1 = \<lparr>Metadata = \<lparr>LastSequence = 1, LastModified = [], Checksum = ''old''\<rparr>,
          Added = [''hash1'' \<mapsto> mk_entry ''hash1'' 1 ''Test1''], Retry = Map.empty\<rparr>"

definition db1_saved :: MagnetDatabase where
  "db1_saved = db1\<lparr>Metadata := \<lparr>LastSequence = 1, LastModified = now0,
                                   Checksum = hex_EncodeToString 0\<rparr>\<rparr>"

definition lib0 :: golib where
  "lib0 = \<lparr>json_Marshal = (\<lambda>db. Inr doc1),
           json_MarshalIndent = (\<lambda>db. Inr doc1),
           json_Unmarshal = (\<lambda>data db.
              if data = doc1 then (None, db1_saved)
              else if data = ''{}'' then (None, db)
              else (Some ''syntax error'', db)),
           json_Unmarshal_V0 = (\<lambda>data.
              if data = ''{}'' then (None, []) else (Some ''syntax error'', [])),
           json_Unmarshal_V1 = (\<lambda>data.
              if data = ''{}'' then (None, [], []) else (Some ''syntax error'', [], [])),
           sha1_Sum = (\<lambda>data. 0)\<rparr>"

definition world0 :: "(string \<rightharpoonup> bytes) \<Rightarrow> world" where
  "world0 fs = \<lparr>files = fs, read_faults = (\<lambda>p. 0), write_plan = (\<lambda>p. WriteOK),
                rename_fails = (\<lambda>p q. False), remove_fails = (\<lambda>p. False), clock = now0,
                uuid_source = (\<lambda>n. ''uuid''), uuid_count = 0\<rparr>"

text \<open>
  \<open>lib_meta\<close> is an instance whose \<^verbatim>\<open>Marshal\<close> output contains the \<^verbatim>\<open>last_modified\<close>
  field and whose digest separates buffers of different length. \<open>uri0\<close> is a magnet
  link of the test suite.
\<close>

definition lib_meta :: golib where
  "lib_meta = lib0\<lparr>json_Marshal := (\<lambda>db. Inr (LastModified (Metadata db))),
                    sha1_Sum := (\<lambda>data. of_nat (length data))\<rparr>"

definition uri0 :: string where
  "uri0 = ''magnet:?xt=urn:btih:AaBbCcDdEeFf1234567890AaBbCcDdEeFf123456&dn=Test''"

text \<open>
  Worlds: a file \<^verbatim>\<open>{}\<close> whose first two reads fail; the same file where every rename
  fails; the same file where a file, once written, is held open by another process (the
  sharing violation of the network share), so that it can be neither renamed nor
  removed; no file at all; a local and a remote file with the same bytes.
\<close>

definition world_faulty :: world where
  "world_faulty = (world0 [''db.json'' \<mapsto> ''{}''])\<lparr>read_faults := (\<lambda>p. 2)\<rparr>"

definition world_norename :: world where
  "world_norename = (world0 [''db.json'' \<mapsto> ''{}''])\<lparr>rename_fails := (\<lambda>p q. True)\<rparr>"

definition world_locked :: world where
  "world_locked = (world0 [''db.json'' \<mapsto> ''{}''])
                     \<lparr>rename_fails := (\<lambda>p q. True), remove_fails := (\<lambda>p. True)\<rparr>"

definition world_fresh :: world where
  "world_fresh = world0 Map.empty"

definition world_twins :: world where
  "world_twins = world0 [''local.json'' \<mapsto> doc1, ''remote.json'' \<mapsto> doc1]"







text \<open>Local has the hash in \<open>added\<close> with id 1, remote has it in \<open>retry\<close> with id 5.\<close>

definition ex1_local :: MagnetDatabase where
  "ex1_local = empty_db\<lparr>Added := [''hash1'' \<mapsto> mk_entry ''hash1'' 1 ''Local'']\<rparr>"

definition ex1_remote :: MagnetDatabase where
  "ex1_remote = empty_db\<lparr>Retry := [''hash1'' \<mapsto> mk_entry ''hash1'' 5 ''Remote'']\<rparr>"

text \<open>
  The reconciled database holds the hash in \<open>added\<close> under id 2 and its counter is 2; the
  update re-queues the same hash in \<open>retry\<close> under the id 7 it had in the caller's copy.
\<close>

definition ex2_merged :: MagnetDatabase where
  "ex2_merged = \<lparr>Metadata = \<lparr>LastSequence = 2, LastModified = now0, Checksum = []\<rparr>,
                 Added = [''hash1'' \<mapsto> mk_entry ''hash1'' 2 ''Remote''], Retry = Map.empty\<rparr>"

definition ex2_updates :: MagnetDatabase where
  "ex2_updates = empty_db\<lparr>Retry := [''hash1'' \<mapsto> mk_entry ''hash1'' 7 ''Local'']\<rparr>"

text \<open>A local database whose counter is 10 and whose only entry has id 3; an update with a new hash.\<close>

definition ex5_local :: MagnetDatabase where
  "ex5_local = \<lparr>Metadata = \<lparr>LastSequence = 10, LastModified = now0, Checksum = []\<rparr>,
                Added = [''hash1'' \<mapsto> mk_entry ''hash1'' 3 ''Test1''], Retry = Map.empty\<rparr>"

definition ex5_updates :: MagnetDatabase where
  "ex5_updates = empty_db\<lparr>Added := [''hash2'' \<mapsto> mk_entry ''hash2'' 0 ''Test2'']\<rparr>"

section \<open>Merge engine: winner selection and losslessness\<close>

lemma select_winner_found_keeps:
  "snd (snd st) \<Longrightarrow> snd (snd (select_winner cs st))"
  by (induction cs st rule: select_winner.induct) auto

lemma select_winner_finds:
  "\<exists>c \<in> set cs. snd (snd c) \<Longrightarrow> snd (snd (select_winner cs st))"
proof (induction cs st rule: select_winner.induct)
  case (1 st)
  then show ?case by simp
next
  case (2 e isAdded ex cs winner inAdded winnerFound)
  then show ?case
    by (auto simp: select_winner_found_keeps)
qed

lemma candidates_exist:
  "h \<in> allHashes loc remote \<Longrightarrow> \<exists>c \<in> set (candidates loc remote h). snd (snd c)"
  by (auto simp: allHashes_def candidates_def lookup2_def)

lemma merge_hash_inserts:
  assumes "h \<in> allHashes loc remote"
  shows "h \<in> dom (Added (fst (merge_hash loc remote h st))) \<union>
             dom (Retry (fst (merge_hash loc remote h st)))"
proof -
  obtain winner inAdded found where
    sw: "select_winner (candidates loc remote h) (zero_entry, False, False) = (winner, inAdded, found)"
    by (cases "select_winner (candidates loc remote h) (zero_entry, False, False)") auto
  have "snd (snd (select_winner (candidates loc remote h) (zero_entry, False, False)))"
    using assms by (intro select_winner_finds candidates_exist)
  then have found by (simp add: sw)
  then show ?thesis
    by (cases st) (simp add: merge_hash_def sw Let_def split: prod.splits)
qed

lemma merge_hash_keeps:
  "h \<in> dom (Added (fst st)) \<union> dom (Retry (fst st)) \<Longrightarrow>
   h \<in> dom (Added (fst (merge_hash loc remote k st))) \<union>
       dom (Retry (fst (merge_hash loc remote k st)))"
  by (cases st) (auto simp: merge_hash_def Let_def split: prod.splits if_splits)

lemma merge_range_keeps:
  "h \<in> dom (Added (fst st)) \<union> dom (Retry (fst st)) \<Longrightarrow>
   h \<in> dom (Added (fst (merge_range loc remote hs st))) \<union>
       dom (Retry (fst (merge_range loc remote hs st)))"
proof (induction hs arbitrary: st)
  case Nil
  then show ?case by simp
next
  case (Cons k hs)
  then show ?case using merge_hash_keeps [of h st loc remote k] by simp
qed

lemma merge_range_covers:
  "h \<in> set hs \<Longrightarrow> h \<in> allHashes loc remote \<Longrightarrow>
   h \<in> dom (Added (fst (merge_range loc remote hs st))) \<union>
       dom (Retry (fst (merge_range loc remote hs st)))"
proof (induction hs arbitrary: st)
  case Nil
  then show ?case by simp
next
  case (Cons k hs)
  show ?case
  proof (cases "h = k")
    case True
    then show ?thesis
      using merge_hash_inserts [OF Cons.prems(2), of st] merge_range_keeps by simp
  next
    case False
    then show ?thesis using Cons by simp
  qed
qed

lemma MergeDatabases_Added:
  "Added (MergeDatabases L now hs loc remote) = Added (fst (merge_range loc remote hs (empty_db, 1)))"
  by (simp add: MergeDatabases_def Let_def split: prod.splits)

lemma MergeDatabases_Retry:
  "Retry (MergeDatabases L now hs loc remote) = Retry (fst (merge_range loc remote hs (empty_db, 1)))"
  by (simp add: MergeDatabases_def Let_def split: prod.splits)

lemma MergeDatabases_LastSequence:
  "LastSequence (Metadata (MergeDatabases L now hs loc remote)) =
   snd (merge_range loc remote hs (empty_db, 1)) - 1"
  by (simp add: MergeDatabases_def Let_def split: prod.splits)

text \<open>
  Claim C1 says that a candidate from an \<open>added\<close> map outranks every candidate from a
  \<open>retry\<close> map. The loop's test replaces the current winner whenever the candidate's id
  is higher, whatever the tiers: with the hash in local \<open>added\<close> under id 1 and in remote
  \<open>retry\<close> under id 5, the merged database holds the remote \<open>retry\<close> entry and the hash
  is absent from \<open>added\<close>.
\<close>

theorem MergeDatabases_retry_with_higher_id_wins:
  "Added (MergeDatabases L now [''hash1''] ex1_local ex1_remote) ''hash1'' = None \<and>
   Retry (MergeDatabases L now [''hash1''] ex1_local ex1_remote) ''hash1'' =
     Some (mk_entry ''hash1'' 5 ''Remote'')"
  by (simp add: MergeDatabases_Added MergeDatabases_Retry merge_hash_def candidates_def
      lookup2_def ex1_local_def ex1_remote_def empty_db_def mk_entry_def zero_entry_def
      word_sless_alt word_sle_eq)

text \<open>
  With the two databases exchanged the \<open>retry\<close> candidate is met first and the \<open>added\<close>
  candidate replaces it: the outcome depends on the order of the candidates.
\<close>

lemma MergeDatabases_added_after_retry_wins:
  "Added (MergeDatabases L now [''hash1''] ex1_remote ex1_local) ''hash1'' =
     Some (mk_entry ''hash1'' 1 ''Local'') \<and>
   Retry (MergeDatabases L now [''hash1''] ex1_remote ex1_local) ''hash1'' = None"
  by (simp add: MergeDatabases_Added MergeDatabases_Retry merge_hash_def candidates_def
      lookup2_def ex1_local_def ex1_remote_def empty_db_def mk_entry_def zero_entry_def
      word_sless_alt word_sle_eq)

text \<open>
  Claim C7: every hash present in any of the four input maps is present in the \<open>added\<close>
  or the \<open>retry\<close> map of the merged database, whatever the order in which the loop
  visits \<^verbatim>\<open>allHashes\<close>.
\<close>

theorem MergeDatabases_lossless:
  assumes "range_order (allHashes loc remote) hs"
    and "h \<in> dom (Added loc) \<union> dom (Retry loc) \<union> dom (Added remote) \<union> dom (Retry remote)"
  shows "h \<in> dom (Added (MergeDatabases L now hs loc remote)) \<union>
             dom (Retry (MergeDatabases L now hs loc remote))"
proof -
  have "h \<in> allHashes loc remote" using assms(2) by (simp add: allHashes_def)
  moreover have "h \<in> set hs" using assms(1) calculation by (simp add: range_order_def)
  ultimately show ?thesis
    unfolding MergeDatabases_Added MergeDatabases_Retry by (rule merge_range_covers [rotated])
qed

theorem MergeDatabases_lossless_witness:
  "range_order (allHashes ex1_local ex1_remote) [''hash1''] \<and>
   ''hash1'' \<in> dom (Added ex1_local) \<union> dom (Retry ex1_local) \<union>
                dom (Added ex1_remote) \<union> dom (Retry ex1_remote) \<and>
   ''hash1'' \<in> dom (Added (MergeDatabases lib0 now0 [''hash1''] ex1_local ex1_remote)) \<union>
                dom (Retry (MergeDatabases lib0 now0 [''hash1''] ex1_local ex1_remote))"
proof -
  have r: "range_order (allHashes ex1_local ex1_remote) [''hash1'']"
    by (auto simp: range_order_def allHashes_def ex1_local_def ex1_remote_def empty_db_def)
  have d: "''hash1'' \<in> dom (Added ex1_local) \<union> dom (Retry ex1_local) \<union>
                dom (Added ex1_remote) \<union> dom (Retry ex1_remote)"
    by (simp add: ex1_local_def)
  show ?thesis using r d MergeDatabases_lossless [OF r d, of lib0 now0] by simp
qed

section \<open>Sequence counter\<close>

text \<open>Signed successor and predecessor without wrap-around.\<close>

lemma sint_succ:
  fixes x :: int64
  assumes "sint x < 2^63 - 1"
  shows "sint (x + 1) = sint x + 1"
proof -
  have "- (2^63) \<le> sint x" using sint_ge [of x] by simp
  then have "signed_take_bit 63 (sint x + 1) = sint x + 1"
    using assms by (intro signed_take_bit_int_eq_self) auto
  then show ?thesis
    by (simp add: sint_word_ariths)
qed

lemma sint_pred:
  fixes x :: int64
  assumes "- (2^63) < sint x"
  shows "sint (x - 1) = sint x - 1"
proof -
  have "sint x < 2^63" using sint_lt [of x] by simp
  then have "signed_take_bit 63 (sint x - 1) = sint x - 1"
    using assms by (intro signed_take_bit_int_eq_self) auto
  then show ?thesis
    by (simp add: sint_word_ariths)
qed

lemma select_winner_result:
  "select_winner cs st = st' \<Longrightarrow> st' = st \<or> (\<exists>e a. (e, a, True) \<in> set cs \<and> st' = (e, a, True))"
proof (induction cs st arbitrary: st' rule: select_winner.induct)
  case (1 st)
  then show ?case by simp
next
  case (2 e isAdded ex cs winner inAdded winnerFound)
  show ?case
  proof (cases ex)
    case False
    then show ?thesis using 2 by auto
  next
    case True
    show ?thesis
    proof (cases "\<not> winnerFound \<or> (isAdded \<and> \<not> inAdded) \<or> ID winner <s ID e")
      case c: True
      then have "select_winner cs (e, isAdded, True) = st'" using 2(4) True by simp
      from 2(2) [OF _ c this] True have "st' = (e, isAdded, True) \<or> (\<exists>e' a. (e', a, True) \<in> set cs \<and> st' = (e', a, True))" by simp
      then show ?thesis using True by auto
    next
      case c: False
      then have "select_winner cs (winner, inAdded, winnerFound) = st'" using 2(4) True by auto
      from 2(3) [OF _ c this] True show ?thesis by auto
    qed
  qed
qed

lemma candidates_sources:
  "(e, a, True) \<in> set (candidates loc remote h) \<Longrightarrow>
   Added loc h = Some e \<or> Retry loc h = Some e \<or> Added remote h = Some e \<or> Retry remote h = Some e"
  by (auto simp: candidates_def lookup2_def split: option.splits)

lemma merge_inv_insert:
  assumes old: "\<forall>h e. Added merged h = Some e \<or> Retry merged h = Some e \<longrightarrow> sint (ID e) < sint n"
    and "sint n \<le> sint n'" and "sint (ID w) < sint n'" and "1 \<le> sint n'"
    and "sint n' + int k \<le> 2^63 - 1"
  shows "merge_inv k (if a then merged\<lparr>Added := (Added merged)(h \<mapsto> w)\<rparr>
                      else merged\<lparr>Retry := (Retry merged)(h \<mapsto> w)\<rparr>, n')"
proof -
  have A: "\<And>h e. Added merged h = Some e \<Longrightarrow> sint (ID e) < sint n'"
    using old assms(2) by fastforce
  have R: "\<And>h e. Retry merged h = Some e \<Longrightarrow> sint (ID e) < sint n'"
    using old assms(2) by fastforce
  show ?thesis
    using assms(3,4,5) by (auto simp: merge_inv_def split: if_splits dest: A R)
qed

lemma merge_hash_inv:
  assumes inv: "merge_inv (Suc k) st"
    and ids: "input_ids_below loc remote (2^63 - 1 - int (Suc k))"
  shows "merge_inv k (merge_hash loc remote h st)"
proof -
  obtain merged n where st: "st = (merged, n)" by (cases st)
  obtain winner inAdded found where
    sw: "select_winner (candidates loc remote h) (zero_entry, False, False) = (winner, inAdded, found)"
    by (cases "select_winner (candidates loc remote h) (zero_entry, False, False)") auto
  have n1: "1 \<le> sint n" and n2: "sint n + int k + 1 \<le> 2^63 - 1"
    and old: "\<forall>h e. Added merged h = Some e \<or> Retry merged h = Some e \<longrightarrow> sint (ID e) < sint n"
    using inv by (auto simp: merge_inv_def st)
  show ?thesis
  proof (cases found)
    case False
    then show ?thesis using n1 n2 old by (auto simp: merge_hash_def st sw merge_inv_def)
  next
    case True
    from select_winner_result [OF sw] True
    have "(winner, inAdded, True) \<in> set (candidates loc remote h)" by auto
    from candidates_sources [OF this]
    have "sint (ID winner) < 2^63 - 1 - int (Suc k)"
      using ids unfolding input_ids_below_def by blast
    then have wb: "sint (ID winner) + int k + 1 < 2^63 - 1" by simp
    have succ_n: "sint (n + 1) = sint n + 1" using n2 by (intro sint_succ) simp
    have succ_w: "sint (ID winner + 1) = sint (ID winner) + 1" using wb by (intro sint_succ) simp
    show ?thesis
    proof (cases "ID winner = 0")
      case z: True
      have "merge_hash loc remote h st =
          (if inAdded then merged\<lparr>Added := (Added merged)(h \<mapsto> winner\<lparr>ID := n\<rparr>)\<rparr>
           else merged\<lparr>Retry := (Retry merged)(h \<mapsto> winner\<lparr>ID := n\<rparr>)\<rparr>, n + 1)"
        using True z by (simp add: merge_hash_def st sw)
      moreover have "merge_inv k (if inAdded then merged\<lparr>Added := (Added merged)(h \<mapsto> winner\<lparr>ID := n\<rparr>)\<rparr>
           else merged\<lparr>Retry := (Retry merged)(h \<mapsto> winner\<lparr>ID := n\<rparr>)\<rparr>, n + 1)"
        using n1 n2 succ_n by (intro merge_inv_insert [OF old]) simp_all
      ultimately show ?thesis by simp
    next
      case nz: False
      show ?thesis
      proof (cases "n \<le>s ID winner")
        case le: True
        have "merge_hash loc remote h st =
          (if inAdded then merged\<lparr>Added := (Added merged)(h \<mapsto> winner)\<rparr>
           else merged\<lparr>Retry := (Retry merged)(h \<mapsto> winner)\<rparr>, ID winner + 1)"
          using True nz le by (simp add: merge_hash_def st sw)
        moreover have "sint n \<le> sint (ID winner)" using le by (simp add: word_sle_eq)
        then have "merge_inv k (if inAdded then merged\<lparr>Added := (Added merged)(h \<mapsto> winner)\<rparr>
           else merged\<lparr>Retry := (Retry merged)(h \<mapsto> winner)\<rparr>, ID winner + 1)"
          using n1 wb succ_w by (intro merge_inv_insert [OF old]) simp_all
        ultimately show ?thesis by simp
      next
        case gt: False
        have "merge_hash loc remote h st =
          (if inAdded then merged\<lparr>Added := (Added merged)(h \<mapsto> winner)\<rparr>
           else merged\<lparr>Retry := (Retry merged)(h \<mapsto> winner)\<rparr>, n)"
          using True nz gt by (simp add: merge_hash_def st sw)
        moreover have "sint (ID winner) < sint n" using gt by (simp add: word_sle_eq)
        then have "merge_inv k (if inAdded then merged\<lparr>Added := (Added merged)(h \<mapsto> winner)\<rparr>
           else merged\<lparr>Retry := (Retry merged)(h \<mapsto> winner)\<rparr>, n)"
          using n1 n2 by (intro merge_inv_insert [OF old]) simp_all
        ultimately show ?thesis by simp
      qed
    qed
  qed
qed

lemma input_ids_below_mono: "input_ids_below loc remote a \<Longrightarrow> a \<le> b \<Longrightarrow> input_ids_below loc remote b"
  by (fastforce simp: input_ids_below_def)

lemma merge_range_inv:
  "merge_inv (length hs) st \<Longrightarrow> input_ids_below loc remote (2^63 - 1 - int (length hs)) \<Longrightarrow>
   merge_inv 0 (merge_range loc remote hs st)"
proof (induction hs arbitrary: st)
  case Nil
  then show ?case by simp
next
  case (Cons h hs)
  have "merge_inv (length hs) (merge_hash loc remote h st)"
    using Cons.prems by (intro merge_hash_inv) simp_all
  moreover have "input_ids_below loc remote (2^63 - 1 - int (length hs))"
    using Cons.prems(2) by (rule input_ids_below_mono) simp
  ultimately show ?case using Cons.IH by simp
qed

lemma MergeDatabases_ids_covered:
  assumes "int (length hs) < 2^63 - 1"
    and "input_ids_below loc remote (2^63 - 1 - int (length hs))"
  shows "ids_covered (MergeDatabases L now hs loc remote)"
proof -
  have "merge_inv (length hs) (empty_db, 1)"
    using assms(1) by (simp add: merge_inv_def empty_db_def)
  from merge_range_inv [OF this assms(2)]
  have inv: "merge_inv 0 (merge_range loc remote hs (empty_db, 1))" .
  obtain merged n where mr: "merge_range loc remote hs (empty_db, 1) = (merged, n)"
    by (cases "merge_range loc remote hs (empty_db, 1)")
  have n1: "1 \<le> sint n"
    and old: "\<And>h e. Added merged h = Some e \<or> Retry merged h = Some e \<Longrightarrow> sint (ID e) < sint n"
    using inv by (auto simp: merge_inv_def mr)
  have "sint (n - 1) = sint n - 1" using n1 by (intro sint_pred) simp
  then show ?thesis
    using old by (fastforce simp: ids_covered_def MergeDatabases_def mr Let_def word_sle_eq)
qed


lemma overlay_added_inv:
  "overlay_inv lo (Suc k) st \<Longrightarrow> overlay_inv lo k (overlay_added upd h st)"
proof -
  assume inv: "overlay_inv lo (Suc k) st"
  obtain merged n where st: "st = (merged, n)" by (cases st)
  have "sint (n + 1) = sint n + 1"
    using inv by (intro sint_succ) (simp add: overlay_inv_def st)
  then show ?thesis using inv
    by (auto simp: overlay_added_def overlay_inv_def st split: option.splits)
qed

lemma overlay_retry_inv:
  "overlay_inv lo (Suc k) st \<Longrightarrow> overlay_inv lo k (overlay_retry upd h st)"
proof -
  assume inv: "overlay_inv lo (Suc k) st"
  obtain merged n where st: "st = (merged, n)" by (cases st)
  have "sint (n + 1) = sint n + 1"
    using inv by (intro sint_succ) (simp add: overlay_inv_def st)
  then show ?thesis using inv
    by (auto simp: overlay_retry_def overlay_inv_def st split: option.splits)
qed

lemma apply_added_inv:
  "overlay_inv lo (length hs + k) st \<Longrightarrow> overlay_inv lo k (apply_added upd hs st)"
proof (induction hs arbitrary: st)
  case Nil
  then show ?case by simp
next
  case (Cons h hs)
  then show ?case using overlay_added_inv [of lo "length hs + k" st upd h] by simp
qed

lemma apply_retry_inv:
  "overlay_inv lo (length hs + k) st \<Longrightarrow> overlay_inv lo k (apply_retry upd hs st)"
proof (induction hs arbitrary: st)
  case Nil
  then show ?case by simp
next
  case (Cons h hs)
  then show ?case using overlay_retry_inv [of lo "length hs + k" st upd h] by simp
qed

lemma overlay_added_stored:
  assumes "stored_below st" and "overlay_inv lo (Suc k) st"
    and "\<forall>h e. upd h = Some e \<and> ID e \<noteq> 0 \<longrightarrow> sint (ID e) < lo"
  shows "stored_below (overlay_added upd h st)"
proof -
  obtain merged n where st: "st = (merged, n)" by (cases st)
  have s: "sint (n + 1) = sint n + 1"
    using assms(2) by (intro sint_succ) (simp add: overlay_inv_def st)
  have lo: "lo \<le> sint n" using assms(2) by (simp add: overlay_inv_def st)
  have A: "\<And>h e. Added merged h = Some e \<Longrightarrow> sint (ID e) < sint n"
    and R: "\<And>h e. Retry merged h = Some e \<Longrightarrow> sint (ID e) < sint n"
    using assms(1) by (auto simp: stored_below_def st)
  show ?thesis
  proof (cases "upd h")
    case None
    then show ?thesis using assms(1) by (simp add: overlay_added_def st)
  next
    case (Some entry)
    show ?thesis
    proof (cases "ID entry = 0")
      case True
      then show ?thesis using Some s
        by (auto simp: overlay_added_def st stored_below_def split: if_splits dest: A R intro: less_trans)
    next
      case False
      then have "sint (ID entry) < sint n" using assms(3) Some lo by fastforce
      then show ?thesis using Some False
        by (auto simp: overlay_added_def st stored_below_def split: if_splits dest: A R)
    qed
  qed
qed

lemma overlay_retry_stored:
  assumes "stored_below st" and "overlay_inv lo (Suc k) st"
    and "\<forall>h e. upd h = Some e \<and> ID e \<noteq> 0 \<longrightarrow> sint (ID e) < lo"
  shows "stored_below (overlay_retry upd h st)"
proof -
  obtain merged n where st: "st = (merged, n)" by (cases st)
  have s: "sint (n + 1) = sint n + 1"
    using assms(2) by (intro sint_succ) (simp add: overlay_inv_def st)
  have lo: "lo \<le> sint n" using assms(2) by (simp add: overlay_inv_def st)
  have A: "\<And>h e. Added merged h = Some e \<Longrightarrow> sint (ID e) < sint n"
    and R: "\<And>h e. Retry merged h = Some e \<Longrightarrow> sint (ID e) < sint n"
    using assms(1) by (auto simp: stored_below_def st)
  show ?thesis
  proof (cases "upd h")
    case None
    then show ?thesis using assms(1) by (simp add: overlay_retry_def st)
  next
    case (Some entry)
    show ?thesis
    proof (cases "ID entry = 0")
      case True
      then show ?thesis using Some s
        by (auto simp: overlay_retry_def st stored_below_def split: if_splits dest: A R intro: less_trans)
    next
      case False
      then have "sint (ID entry) < sint n" using assms(3) Some lo by fastforce
      then show ?thesis using Some False
        by (auto simp: overlay_retry_def st stored_below_def split: if_splits dest: A R)
    qed
  qed
qed

lemma apply_added_stored:
  assumes "\<forall>h e. upd h = Some e \<and> ID e \<noteq> 0 \<longrightarrow> sint (ID e) < lo"
  shows "stored_below st \<Longrightarrow> overlay_inv lo (length hs + k) st \<Longrightarrow> stored_below (apply_added upd hs st)"
proof (induction hs arbitrary: st)
  case Nil
  then show ?case by simp
next
  case (Cons h hs)
  have i: "overlay_inv lo (Suc (length hs + k)) st" using Cons.prems(2) by simp
  show ?case
    using Cons.IH [OF overlay_added_stored [OF Cons.prems(1) i assms] overlay_added_inv [OF i]]
    by simp
qed

lemma apply_retry_stored:
  assumes "\<forall>h e. upd h = Some e \<and> ID e \<noteq> 0 \<longrightarrow> sint (ID e) < lo"
  shows "stored_below st \<Longrightarrow> overlay_inv lo (length hs + k) st \<Longrightarrow> stored_below (apply_retry upd hs st)"
proof (induction hs arbitrary: st)
  case Nil
  then show ?case by simp
next
  case (Cons h hs)
  have i: "overlay_inv lo (Suc (length hs + k)) st" using Cons.prems(2) by simp
  show ?case
    using Cons.IH [OF overlay_retry_stored [OF Cons.prems(1) i assms] overlay_retry_inv [OF i]]
    by simp
qed

lemma apply_updates_start:
  assumes "overlay_fits ua ur merged"
  shows "overlay_inv (sint (LastSequence (Metadata merged)) + 1) (length ua + length ur)
           (merged, LastSequence (Metadata merged) + 1)"
proof -
  have "sint (LastSequence (Metadata merged) + 1) = sint (LastSequence (Metadata merged)) + 1"
    using assms by (intro sint_succ) (simp add: overlay_fits_def)
  then show ?thesis using assms by (simp add: overlay_inv_def overlay_fits_def)
qed

lemma apply_updates_final:
  assumes "overlay_fits ua ur merged"
  shows "overlay_inv (sint (LastSequence (Metadata merged)) + 1) 0
           (apply_retry (Retry updates) ur
             (apply_added (Added updates) ua (merged, LastSequence (Metadata merged) + 1)))"
proof -
  have "overlay_inv (sint (LastSequence (Metadata merged)) + 1) (length ur)
          (apply_added (Added updates) ua (merged, LastSequence (Metadata merged) + 1))"
    using apply_updates_start [OF assms] by (intro apply_added_inv) simp
  then show ?thesis
    using apply_retry_inv [of _ ur 0] by simp
qed

lemma apply_updates_monotone:
  assumes "overlay_fits ua ur merged"
  shows "LastSequence (Metadata merged) \<le>s LastSequence (Metadata (apply_updates ua ur updates merged))"
proof -
  obtain m n where r: "apply_retry (Retry updates) ur
             (apply_added (Added updates) ua (merged, LastSequence (Metadata merged) + 1)) = (m, n)"
    by (cases "apply_retry (Retry updates) ur
             (apply_added (Added updates) ua (merged, LastSequence (Metadata merged) + 1))")
  have lo: "sint (LastSequence (Metadata merged)) + 1 \<le> sint n"
    using apply_updates_final [OF assms, of updates] by (simp add: r overlay_inv_def)
  have "- (2^63) \<le> sint (LastSequence (Metadata merged))"
    using sint_ge [of "LastSequence (Metadata merged)"] by simp
  then have "sint (n - 1) = sint n - 1" using lo by (intro sint_pred) simp
  then show ?thesis using lo by (simp add: apply_updates_def r word_sle_eq)
qed

lemma apply_updates_ids_covered:
  assumes fits: "overlay_fits ua ur merged"
    and cov: "ids_covered merged"
    and pre: "presets_covered updates merged"
  shows "ids_covered (apply_updates ua ur updates merged)"
proof -
  let ?lo = "sint (LastSequence (Metadata merged)) + 1"
  let ?st0 = "(merged, LastSequence (Metadata merged) + 1)"
  have s0: "sint (LastSequence (Metadata merged) + 1) = ?lo"
    using fits by (intro sint_succ) (simp add: overlay_fits_def)
  have pa: "\<forall>h e. Added updates h = Some e \<and> ID e \<noteq> 0 \<longrightarrow> sint (ID e) < ?lo"
    and pr: "\<forall>h e. Retry updates h = Some e \<and> ID e \<noteq> 0 \<longrightarrow> sint (ID e) < ?lo"
    using pre by (fastforce simp: presets_covered_def word_sle_eq)+
  have st0: "stored_below ?st0"
    using cov s0 by (fastforce simp: stored_below_def ids_covered_def word_sle_eq)
  have i0: "overlay_inv ?lo (length ua + length ur) ?st0" by (rule apply_updates_start [OF fits])
  have st1: "stored_below (apply_added (Added updates) ua ?st0)"
    using apply_added_stored [OF pa st0 i0] .
  have i1: "overlay_inv ?lo (length ur + 0) (apply_added (Added updates) ua ?st0)"
    using apply_added_inv [OF i0] by simp
  have st2: "stored_below (apply_retry (Retry updates) ur (apply_added (Added updates) ua ?st0))"
    using apply_retry_stored [OF pr st1 i1] .
  obtain m n where r: "apply_retry (Retry updates) ur (apply_added (Added updates) ua ?st0) = (m, n)"
    by (cases "apply_retry (Retry updates) ur (apply_added (Added updates) ua ?st0)")
  have lo: "?lo \<le> sint n"
    using apply_updates_final [OF fits, of updates] by (simp add: r overlay_inv_def)
  have "- (2^63) \<le> sint (LastSequence (Metadata merged))"
    using sint_ge [of "LastSequence (Metadata merged)"] by simp
  then have "sint (n - 1) = sint n - 1" using lo by (intro sint_pred) simp
  then show ?thesis
    using st2 by (fastforce simp: ids_covered_def stored_below_def apply_updates_def r word_sle_eq)
qed


text \<open>
  The overlay keeps an update's preset id and does not raise \<^verbatim>\<open>nextID\<close> to it, as
  \<^verbatim>\<open>MergeDatabases\<close> does: here the result stores id 7 under a counter of 2.
\<close>

lemma apply_updates_preset_id_above_counter:
  "LastSequence (Metadata (apply_updates [] [''hash1''] ex2_updates ex2_merged)) = 2 \<and>
   Retry (apply_updates [] [''hash1''] ex2_updates ex2_merged) ''hash1'' =
     Some (mk_entry ''hash1'' 7 ''Local'')"
  by (simp add: apply_updates_def overlay_retry_def ex2_updates_def ex2_merged_def empty_db_def
      mk_entry_def zero_entry_def)

text \<open>
  Claim C5, as amended. (1) In every database \<^verbatim>\<open>MergeDatabases\<close> returns,
  \<^verbatim>\<open>last_sequence\<close> is at least every stored id; the counter is recomputed from the merged
  entries and the inputs' counters are not read. (2) The overlay never lowers the counter
  of the reconciled database. (3) The overlay keeps \<^verbatim>\<open>last_sequence\<close> at least every
  stored id when the reconciled database has that property and every update entry has
  id 0 or an id the reconciled counter covers. All three under the proviso that the
  counter stays within \<^verbatim>\<open>int64\<close>.
\<close>

theorem last_sequence_covers_ids:
  "(merge_fits hs loc remote \<longrightarrow> ids_covered (MergeDatabases L now hs loc remote)) \<and>
   (overlay_fits ua ur merged \<longrightarrow>
      LastSequence (Metadata merged) \<le>s
      LastSequence (Metadata (apply_updates ua ur updates merged))) \<and>
   (overlay_fits ua ur merged \<and> ids_covered merged \<and> presets_covered updates merged \<longrightarrow>
      ids_covered (apply_updates ua ur updates merged))"
  using MergeDatabases_ids_covered [of hs loc remote L now]
        apply_updates_monotone [of ua ur merged updates]
        apply_updates_ids_covered [of ua ur merged updates]
  by (simp add: merge_fits_def)

theorem last_sequence_covers_ids_witness:
  "merge_fits [''hash1''] ex5_local empty_db \<and>
   ids_covered (MergeDatabases lib0 now0 [''hash1''] ex5_local empty_db) \<and>
   overlay_fits [''hash2''] [] ex5_local \<and> ids_covered ex5_local \<and>
   presets_covered ex5_updates ex5_local \<and>
   LastSequence (Metadata ex5_local) \<le>s
     LastSequence (Metadata (apply_updates [''hash2''] [] ex5_updates ex5_local)) \<and>
   ids_covered (apply_updates [''hash2''] [] ex5_updates ex5_local)"
proof -
  have m: "merge_fits [''hash1''] ex5_local empty_db"
    by (auto simp: merge_fits_def input_ids_below_def ex5_local_def empty_db_def mk_entry_def
        zero_entry_def split: if_splits)
  have f: "overlay_fits [''hash2''] [] ex5_local"
    by (simp add: overlay_fits_def ex5_local_def)
  have c: "ids_covered ex5_local"
    by (auto simp: ids_covered_def ex5_local_def mk_entry_def zero_entry_def word_sle_eq
        split: if_splits)
  have p: "presets_covered ex5_updates ex5_local"
    by (auto simp: presets_covered_def ex5_updates_def ex5_local_def empty_db_def mk_entry_def
        zero_entry_def split: if_splits)
  show ?thesis
    using m f c p
      last_sequence_covers_ids [of "[''hash1'']" ex5_local empty_db lib0 now0
        "[''hash2'']" "[]" ex5_local ex5_updates]
    by simp
qed

text \<open>
  Claim C5 as stated fails: merging a local database whose counter is 10 and whose only
  entry has id 3 with an empty remote gives a database whose counter is 3.
\<close>

theorem MergeDatabases_last_sequence_decreases:
  "LastSequence (Metadata ex5_local) = 10 \<and>
   LastSequence (Metadata (MergeDatabases lib0 now0 [''hash1''] ex5_local empty_db)) = 3 \<and>
   LastSequence (Metadata (MergeDatabases lib0 now0 [''hash1''] ex5_local empty_db)) <s
     LastSequence (Metadata ex5_local)"
  by (simp add: MergeDatabases_LastSequence merge_hash_def candidates_def lookup2_def
      ex5_local_def empty_db_def mk_entry_def zero_entry_def word_sless_alt word_sle_eq)

section \<open>Exclusivity of the two maps\<close>

text \<open>
  \<^verbatim>\<open>MergeDatabases\<close> stores each hash once, in the map its winner came from: the merged
  \<open>added\<close> and \<open>retry\<close> maps share no key.
\<close>

lemma merge_hash_sections:
  assumes "\<forall>k. (k \<in> dom (Added (fst st)) \<longrightarrow>
                  fst (snd (select_winner (candidates loc remote k) (zero_entry, False, False)))) \<and>
               (k \<in> dom (Retry (fst st)) \<longrightarrow>
                  \<not> fst (snd (select_winner (candidates loc remote k) (zero_entry, False, False))))"
  shows "\<forall>k. (k \<in> dom (Added (fst (merge_hash loc remote h st))) \<longrightarrow>
                  fst (snd (select_winner (candidates loc remote k) (zero_entry, False, False)))) \<and>
               (k \<in> dom (Retry (fst (merge_hash loc remote h st))) \<longrightarrow>
                  \<not> fst (snd (select_winner (candidates loc remote k) (zero_entry, False, False))))"
proof -
  obtain merged n where st: "st = (merged, n)" by (cases st)
  obtain winner inAdded found where
    sw: "select_winner (candidates loc remote h) (zero_entry, False, False) = (winner, inAdded, found)"
    by (cases "select_winner (candidates loc remote h) (zero_entry, False, False)") auto
  show ?thesis
    using assms sw
    by (auto simp: merge_hash_def st Let_def split: if_splits prod.splits)
qed

lemma merge_range_sections:
  assumes "\<forall>k. (k \<in> dom (Added (fst st)) \<longrightarrow>
                  fst (snd (select_winner (candidates loc remote k) (zero_entry, False, False)))) \<and>
               (k \<in> dom (Retry (fst st)) \<longrightarrow>
                  \<not> fst (snd (select_winner (candidates loc remote k) (zero_entry, False, False))))"
  shows "\<forall>k. (k \<in> dom (Added (fst (merge_range loc remote hs st))) \<longrightarrow>
                  fst (snd (select_winner (candidates loc remote k) (zero_entry, False, False)))) \<and>
               (k \<in> dom (Retry (fst (merge_range loc remote hs st))) \<longrightarrow>
                  \<not> fst (snd (select_winner (candidates loc remote k) (zero_entry, False, False))))"
  using assms
proof (induction hs arbitrary: st)
  case Nil
  then show ?case by simp
next
  case (Cons h hs)
  from Cons.IH [OF merge_hash_sections [OF Cons.prems, of h]] show ?case by simp
qed

lemma MergeDatabases_exclusive:
  "dom (Added (MergeDatabases L now hs loc remote)) \<inter>
   dom (Retry (MergeDatabases L now hs loc remote)) = {}"
proof -
  have "\<forall>k. (k \<in> dom (Added (fst (empty_db, 1::int64))) \<longrightarrow>
                  fst (snd (select_winner (candidates loc remote k) (zero_entry, False, False)))) \<and>
               (k \<in> dom (Retry (fst (empty_db, 1::int64))) \<longrightarrow>
                  \<not> fst (snd (select_winner (candidates loc remote k) (zero_entry, False, False))))"
    by (simp add: empty_db_def)
  from merge_range_sections [OF this, of hs] show ?thesis
    unfolding MergeDatabases_Added MergeDatabases_Retry by blast
qed

text \<open>
  Claim C2 says that after the overlay no hash is in both maps, whichever section the
  update places it in. The loop over \<^verbatim>\<open>updates.Added\<close> deletes the hash from
  \<^verbatim>\<open>merged.Retry\<close>; the loop over \<^verbatim>\<open>updates.Retry\<close> has no matching delete from
  \<^verbatim>\<open>merged.Added\<close>. With the hash in the reconciled \<open>added\<close> map and in the update's
  \<open>retry\<close> map, the result holds it in both.
\<close>

theorem apply_updates_retry_leaves_added:
  "Added (apply_updates [] [''hash1''] ex2_updates ex2_merged) ''hash1'' =
     Some (mk_entry ''hash1'' 2 ''Remote'') \<and>
   Retry (apply_updates [] [''hash1''] ex2_updates ex2_merged) ''hash1'' =
     Some (mk_entry ''hash1'' 7 ''Local'')"
  by (simp add: apply_updates_def overlay_retry_def ex2_updates_def ex2_merged_def empty_db_def
      mk_entry_def zero_entry_def)

section \<open>Load: the format error\<close>

lemma migrate_V1_entry_keeps:
  "Added (fst st) \<noteq> Map.empty \<Longrightarrow> Added (fst (migrate_V1_entry b kv st)) \<noteq> Map.empty"
  "Retry (fst st) \<noteq> Map.empty \<Longrightarrow> Retry (fst (migrate_V1_entry b kv st)) \<noteq> Map.empty"
  by (cases st; cases kv; simp add: migrate_V1_entry_def Let_def split: prod.splits)+

lemma migrate_V1_entry_inserts:
  "Added (fst (migrate_V1_entry True kv st)) \<noteq> Map.empty"
  "Retry (fst (migrate_V1_entry False kv st)) \<noteq> Map.empty"
  by (cases st; cases kv; simp add: migrate_V1_entry_def Let_def split: prod.splits)+

lemma migrate_V1_keeps_Added:
  "Added (fst st) \<noteq> Map.empty \<Longrightarrow> Added (fst (migrate_V1 b l st)) \<noteq> Map.empty"
  by (induction l arbitrary: st) (simp_all add: migrate_V1_entry_keeps)

lemma migrate_V1_keeps_Retry:
  "Retry (fst st) \<noteq> Map.empty \<Longrightarrow> Retry (fst (migrate_V1 b l st)) \<noteq> Map.empty"
  by (induction l arbitrary: st) (simp_all add: migrate_V1_entry_keeps)

lemma migrate_V1_True_nonempty:
  "l \<noteq> [] \<Longrightarrow> Added (fst (migrate_V1 True l st)) \<noteq> Map.empty"
  by (cases l) (simp_all add: migrate_V1_keeps_Added migrate_V1_entry_inserts)

lemma migrate_V1_False_nonempty:
  "l \<noteq> [] \<Longrightarrow> Retry (fst (migrate_V1 False l st)) \<noteq> Map.empty"
  by (cases l) (simp_all add: migrate_V1_keeps_Retry migrate_V1_entry_inserts)

lemma migrate_V1_both_nonempty:
  assumes "a \<noteq> [] \<or> r \<noteq> []"
  shows "Added (fst (migrate_V1 False r (migrate_V1 True a st))) \<noteq> Map.empty \<or>
         Retry (fst (migrate_V1 False r (migrate_V1 True a st))) \<noteq> Map.empty"
  using assms migrate_V1_True_nonempty [of a st] migrate_V1_keeps_Added [of "migrate_V1 True a st" False r]
    migrate_V1_False_nonempty [of r "migrate_V1 True a st"]
  by blast

lemma parse_database_format_error_iff:
  "is_format_error (fst (parse_database L data empty_db w)) \<longleftrightarrow>
     \<not> accepted_current L data \<and> \<not> accepted_V0 L data \<and> \<not> accepted_V1 L data"
proof -
  obtain err db1 where u: "json_Unmarshal L data empty_db = (err, db1)"
    by (cases "json_Unmarshal L data empty_db")
  obtain e0 d0 where u0: "json_Unmarshal_V0 L data = (e0, d0)"
    by (cases "json_Unmarshal_V0 L data")
  obtain e1 a1 r1 where u1: "json_Unmarshal_V1 L data = (e1, a1, r1)"
    by (cases "json_Unmarshal_V1 L data") auto
  show ?thesis
  proof (cases "accepted_current L data")
    case True
    then show ?thesis
      by (auto simp: parse_database_def accepted_current_def u is_format_error_def)
  next
    case nc: False
    show ?thesis
    proof (cases "accepted_V0 L data")
      case True
      then show ?thesis using nc
        by (auto simp: parse_database_def accepted_current_def accepted_V0_def u u0
            is_format_error_def Let_def split: prod.splits)
    next
      case n0: False
      show ?thesis
      proof (cases "accepted_V1 L data")
        case True
        then have ne: "a1 \<noteq> [] \<or> r1 \<noteq> []" by (auto simp: accepted_V1_def u1)
        obtain db2 n w' where m: "migrate_V1 False r1 (migrate_V1 True a1 (db1, 1, w)) = (db2, n, w')"
          by (cases "migrate_V1 False r1 (migrate_V1 True a1 (db1, 1, w))") auto
        have "Added db2 \<noteq> Map.empty \<or> Retry db2 \<noteq> Map.empty"
          using migrate_V1_both_nonempty [OF ne, of "(db1, 1, w)"] by (simp add: m)
        then show ?thesis using nc n0 True
          by (auto simp: parse_database_def accepted_current_def accepted_V0_def accepted_V1_def
              u u0 u1 m is_format_error_def Let_def)
      next
        case n1: False
        then show ?thesis using nc n0
          by (auto simp: parse_database_def accepted_current_def accepted_V0_def accepted_V1_def
              u u0 u1 is_format_error_def Let_def)
      qed
    qed
  qed
qed

lemma migrate_V0_entry_inserts:
  "Added (fst (migrate_V0_entry kv st)) \<noteq> Map.empty"
  by (cases st; cases kv; simp add: migrate_V0_entry_def Let_def split: prod.splits)

lemma migrate_V0_entry_keeps:
  "Added (fst st) \<noteq> Map.empty \<Longrightarrow> Added (fst (migrate_V0_entry kv st)) \<noteq> Map.empty"
  by (cases st; cases kv; simp add: migrate_V0_entry_def Let_def split: prod.splits)

lemma migrate_V0_keeps:
  "Added (fst st) \<noteq> Map.empty \<Longrightarrow> Added (fst (migrate_V0 l st)) \<noteq> Map.empty"
  by (induction l arbitrary: st) (simp_all add: migrate_V0_entry_keeps)

lemma migrate_V0_nonempty:
  "l \<noteq> [] \<Longrightarrow> Added (fst (migrate_V0 l st)) \<noteq> Map.empty"
  by (cases l) (simp_all add: migrate_V0_keeps migrate_V0_entry_inserts)

lemma parse_database_nonempty:
  assumes "fst (parse_database L data db w) = Inr db'"
  shows "Added db' \<noteq> Map.empty \<or> Retry db' \<noteq> Map.empty"
proof -
  obtain err db1 where u: "json_Unmarshal L data db = (err, db1)"
    by (cases "json_Unmarshal L data db")
  obtain e0 d0 where u0: "json_Unmarshal_V0 L data = (e0, d0)"
    by (cases "json_Unmarshal_V0 L data")
  obtain e1 a1 r1 where u1: "json_Unmarshal_V1 L data = (e1, a1, r1)"
    by (cases "json_Unmarshal_V1 L data") auto
  obtain db2 n w' where m0: "migrate_V0 d0 (db1, 1, w) = (db2, n, w')"
    by (cases "migrate_V0 d0 (db1, 1, w)") auto
  obtain db3 n3 w3 where m1: "migrate_V1 False r1 (migrate_V1 True a1 (db1, 1, w)) = (db3, n3, w3)"
    by (cases "migrate_V1 False r1 (migrate_V1 True a1 (db1, 1, w))") auto
  have v0: "d0 \<noteq> [] \<Longrightarrow> Added db2 \<noteq> Map.empty"
    using migrate_V0_nonempty [of d0 "(db1, 1, w)"] by (simp add: m0)
  have v1: "a1 \<noteq> [] \<or> r1 \<noteq> [] \<Longrightarrow> Added db3 \<noteq> Map.empty \<or> Retry db3 \<noteq> Map.empty"
    using migrate_V1_both_nonempty [of a1 r1 "(db1, 1, w)"] by (simp add: m1)
  show ?thesis
    using assms v0 v1
    by (auto simp: parse_database_def u u0 u1 m0 m1 Let_def split: if_splits)
qed

lemma LoadJSONDatabase_loop_reads:
  "files w path = Some data \<Longrightarrow> attempt + read_faults w path < 5 \<Longrightarrow>
   LoadJSONDatabase_loop L path db attempt w =
     parse_database L data db (w\<lparr>read_faults := (read_faults w)(path := 0)\<rparr>)"
proof (induction "read_faults w path" arbitrary: attempt w)
  case 0
  then have "(read_faults w)(path := 0) = read_faults w" by (intro fun_upd_idem) simp
  then have "w\<lparr>read_faults := (read_faults w)(path := 0)\<rparr> = w" by simp
  then show ?case using 0
    by (subst LoadJSONDatabase_loop.simps) (simp add: os_ReadFile_def)
next
  case (Suc n)
  let ?w' = "w\<lparr>read_faults := (read_faults w)(path := read_faults w path - 1)\<rparr>"
  have r: "os_ReadFile path w = (Inl (ReadError path), ?w')"
    using Suc.prems(1) Suc.hyps(2) by (simp add: os_ReadFile_def)
  have a: "attempt < 4" using Suc.prems(2) Suc.hyps(2) by simp
  have "LoadJSONDatabase_loop L path db (attempt + 1) ?w' =
      parse_database L data db (?w'\<lparr>read_faults := (read_faults ?w')(path := 0)\<rparr>)"
    using Suc.prems Suc.hyps(2) by (intro Suc.hyps(1)) simp_all
  then show ?case using a r
    by (subst LoadJSONDatabase_loop.simps) simp
qed

lemma LoadJSONDatabase_reads:
  assumes "files w path = Some data" and "read_faults w path < 5"
  shows "LoadJSONDatabase L path w =
           parse_database L data empty_db (w\<lparr>read_faults := (read_faults w)(path := 0)\<rparr>)"
  using assms LoadJSONDatabase_loop_reads [of w path data 0 L empty_db]
  by (simp add: LoadJSONDatabase_def)

text \<open>
  Claim C3, as amended: once the bytes have been read (the file exists and fewer than
  five reads fail), \<^verbatim>\<open>LoadJSONDatabase\<close> returns a format error exactly when none of the
  three schema attempts is accepted, that is, when each decoder either fails or finds no
  entry. The size of the buffer plays no part: the 1024-byte test at line 456 only
  selects a log line, and the one at line 446 cannot hold. A database loaded from an
  existing file is never empty.
\<close>

theorem LoadJSONDatabase_format_error_iff:
  assumes "files w path = Some data" and "read_faults w path < 5"
  shows "(is_format_error (fst (LoadJSONDatabase L path w)) \<longleftrightarrow>
            \<not> accepted_current L data \<and> \<not> accepted_V0 L data \<and> \<not> accepted_V1 L data) \<and>
         (\<forall>db. fst (LoadJSONDatabase L path w) = Inr db \<longrightarrow>
            Added db \<noteq> Map.empty \<or> Retry db \<noteq> Map.empty)"
  unfolding LoadJSONDatabase_reads [OF assms]
  using parse_database_format_error_iff parse_database_nonempty by blast

theorem LoadJSONDatabase_format_error_iff_witness:
  "files world_faulty ''db.json'' = Some ''{}'' \<and> read_faults world_faulty ''db.json'' < 5 \<and>
   \<not> accepted_current lib0 ''{}'' \<and> \<not> accepted_V0 lib0 ''{}'' \<and> \<not> accepted_V1 lib0 ''{}'' \<and>
   is_format_error (fst (LoadJSONDatabase lib0 ''db.json'' world_faulty))"
proof -
  have f: "files world_faulty ''db.json'' = Some ''{}''"
    by (simp add: world_faulty_def world0_def)
  have r: "read_faults world_faulty ''db.json'' < 5"
    by (simp add: world_faulty_def world0_def)
  have n: "\<not> accepted_current lib0 ''{}'' \<and> \<not> accepted_V0 lib0 ''{}'' \<and> \<not> accepted_V1 lib0 ''{}''"
    by (simp add: accepted_current_def accepted_V0_def accepted_V1_def lib0_def doc1_def empty_db_def)
  show ?thesis
    using f r n LoadJSONDatabase_format_error_iff [OF f r, of lib0] by simp
qed

text \<open>
  Claim C3 as stated fails: a two-byte file \<^verbatim>\<open>{}\<close>, which every decoder accepts without
  an error and without an entry, does not load as an empty database; the load returns
  the error \<^verbatim>\<open>unrecognized format\<close>.
\<close>

theorem LoadJSONDatabase_small_empty_object_fails:
  "length ''{}'' \<le> 1024 \<and>
   json_Unmarshal lib0 ''{}'' empty_db = (None, empty_db) \<and>
   json_Unmarshal_V0 lib0 ''{}'' = (None, []) \<and>
   json_Unmarshal_V1 lib0 ''{}'' = (None, [], []) \<and>
   fst (LoadJSONDatabase lib0 ''db.json'' (world0 [''db.json'' \<mapsto> ''{}''])) =
     Inl (Errorf ''unrecognized format'')"
proof -
  have "LoadJSONDatabase lib0 ''db.json'' (world0 [''db.json'' \<mapsto> ''{}'']) =
        parse_database lib0 ''{}'' empty_db
          ((world0 [''db.json'' \<mapsto> ''{}''])\<lparr>read_faults :=
             (read_faults (world0 [''db.json'' \<mapsto> ''{}'']))(''db.json'' := 0)\<rparr>)"
    by (rule LoadJSONDatabase_reads) (simp_all add: world0_def)
  then show ?thesis
    by (simp add: parse_database_def lib0_def doc1_def empty_db_def)
qed

section \<open>Save: atomic replacement\<close>

lemma SaveDatabaseLocal_stamps:
  "fst (snd (SaveDatabaseLocal L path db w)) =
     db\<lparr>Metadata := \<lparr>LastSequence = LastSequence (Metadata db), LastModified = clock w,
          Checksum = ComputeChecksum L (db\<lparr>Metadata := (Metadata db)\<lparr>LastModified := clock w\<rparr>\<rparr>)\<rparr>\<rparr>"
  by (simp add: SaveDatabaseLocal_def Let_def os_WriteFile_def os_Rename_def os_Remove_def
      split: sum.splits write_outcome.splits option.splits if_splits prod.splits)

lemma SaveDatabaseLocal_succeeds:
  assumes "json_MarshalIndent L (fst (snd (SaveDatabaseLocal L path db w))) = Inr data"
    and "write_plan w (path @ ''.tmp'') = WriteOK"
    and "\<not> rename_fails w (path @ ''.tmp'') path"
  shows "SaveDatabaseLocal L path db w =
           (None, fst (snd (SaveDatabaseLocal L path db w)),
            w\<lparr>files := ((files w)(path @ ''.tmp'' := None))(path \<mapsto> data)\<rparr>)"
  using assms
  by (simp add: SaveDatabaseLocal_def Let_def os_WriteFile_def os_Rename_def
      split: sum.splits)

lemma SaveDatabaseLocal_lib0_db1:
  "clock w = now0 \<Longrightarrow> write_plan w (path @ ''.tmp'') = WriteOK \<Longrightarrow>
   SaveDatabaseLocal lib0 path db1 w =
     (case os_Rename (path @ ''.tmp'') path (w\<lparr>files := (files w)(path @ ''.tmp'' \<mapsto> doc1)\<rparr>) of
        (Some err, w2) \<Rightarrow> (Some err, db1_saved, os_Remove (path @ ''.tmp'') w2)
      | (None, w2) \<Rightarrow> (None, db1_saved, w2))"
  by (simp add: SaveDatabaseLocal_def ComputeChecksum_def lib0_def db1_def db1_saved_def
      os_WriteFile_def Let_def split: prod.splits option.splits)

text \<open>
  Claim C9, as amended: \<^verbatim>\<open>SaveDatabaseLocal\<close> refreshes \<^verbatim>\<open>last_modified\<close> and
  \<^verbatim>\<open>checksum\<close> of the database it is given, writes the serialization of that database
  to the sibling temp path and renames it over the destination. The save succeeds
  exactly when the serialization, the temp-file write and the rename succeed; then the
  destination holds the serialized database and no temp file remains. Every failing
  save leaves the destination with its prior contents, and no save touches a third
  path. When the rename fails the program calls \<^verbatim>\<open>os.Remove\<close> on the temp file and
  discards its result: the temp file is gone unless that removal fails as well, in
  which case the written temp file stays.
\<close>

theorem SaveDatabaseLocal_atomic:
  assumes "SaveDatabaseLocal L path db w = (res, db', w')"
  shows "db' = db\<lparr>Metadata := \<lparr>LastSequence = LastSequence (Metadata db), LastModified = clock w,
            Checksum = ComputeChecksum L (db\<lparr>Metadata := (Metadata db)\<lparr>LastModified := clock w\<rparr>\<rparr>)\<rparr>\<rparr> \<and>
         (res = None \<longleftrightarrow>
            (\<exists>data. json_MarshalIndent L db' = Inr data) \<and>
            write_plan w (path @ ''.tmp'') = WriteOK \<and> \<not> rename_fails w (path @ ''.tmp'') path) \<and>
         (res = None \<longrightarrow>
            (\<exists>data. json_MarshalIndent L db' = Inr data \<and>
               files w' = ((files w)(path @ ''.tmp'' := None))(path \<mapsto> data))) \<and>
         (res \<noteq> None \<longrightarrow> files w' path = files w path) \<and>
         (\<forall>p. p \<noteq> path \<and> p \<noteq> path @ ''.tmp'' \<longrightarrow> files w' p = files w p) \<and>
         (\<forall>data. json_MarshalIndent L db' = Inr data \<and> write_plan w (path @ ''.tmp'') = WriteOK \<and>
            rename_fails w (path @ ''.tmp'') path \<longrightarrow>
              res = Some (RenameError path) \<and>
              files w' (path @ ''.tmp'') = (if remove_fails w (path @ ''.tmp'') then Some data else None))"
proof -
  have 1: "db' = db\<lparr>Metadata := \<lparr>LastSequence = LastSequence (Metadata db), LastModified = clock w,
            Checksum = ComputeChecksum L (db\<lparr>Metadata := (Metadata db)\<lparr>LastModified := clock w\<rparr>\<rparr>)\<rparr>\<rparr>"
    using SaveDatabaseLocal_stamps [of L path db w] assms by simp
  have 2: "res = None \<longleftrightarrow>
            (\<exists>data. json_MarshalIndent L db' = Inr data) \<and>
            write_plan w (path @ ''.tmp'') = WriteOK \<and> \<not> rename_fails w (path @ ''.tmp'') path"
    using assms
    by (auto simp: SaveDatabaseLocal_def Let_def os_WriteFile_def os_Rename_def os_Remove_def
        split: sum.splits write_outcome.splits option.splits if_splits prod.splits)
  have 3: "res = None \<longrightarrow>
            (\<exists>data. json_MarshalIndent L db' = Inr data \<and>
               files w' = ((files w)(path @ ''.tmp'' := None))(path \<mapsto> data))"
    using assms
    by (auto simp: SaveDatabaseLocal_def Let_def os_WriteFile_def os_Rename_def os_Remove_def
        split: sum.splits write_outcome.splits option.splits if_splits prod.splits)
  have 4: "res \<noteq> None \<longrightarrow> files w' path = files w path"
    using assms
    by (auto simp: SaveDatabaseLocal_def Let_def os_WriteFile_def os_Rename_def os_Remove_def
        split: sum.splits write_outcome.splits option.splits if_splits prod.splits)
  have 5: "\<forall>p. p \<noteq> path \<and> p \<noteq> path @ ''.tmp'' \<longrightarrow> files w' p = files w p"
    using assms
    by (auto simp: SaveDatabaseLocal_def Let_def os_WriteFile_def os_Rename_def os_Remove_def
        split: sum.splits write_outcome.splits option.splits if_splits prod.splits)
  have 6: "\<forall>data. json_MarshalIndent L db' = Inr data \<and> write_plan w (path @ ''.tmp'') = WriteOK \<and>
            rename_fails w (path @ ''.tmp'') path \<longrightarrow>
              res = Some (RenameError path) \<and>
              files w' (path @ ''.tmp'') = (if remove_fails w (path @ ''.tmp'') then Some data else None)"
    using assms
    by (auto simp: SaveDatabaseLocal_def Let_def os_WriteFile_def os_Rename_def os_Remove_def
        split: sum.splits write_outcome.splits option.splits if_splits prod.splits)
  show ?thesis using 1 2 3 4 5 6 by blast
qed

theorem SaveDatabaseLocal_atomic_witness:
  "fst (SaveDatabaseLocal lib0 ''db.json'' db1 world_fresh) = None \<and>
   fst (snd (SaveDatabaseLocal lib0 ''db.json'' db1 world_fresh)) = db1_saved \<and>
   json_MarshalIndent lib0 db1_saved = Inr doc1 \<and>
   files (snd (snd (SaveDatabaseLocal lib0 ''db.json'' db1 world_fresh))) ''db.json'' = Some doc1 \<and>
   files (snd (snd (SaveDatabaseLocal lib0 ''db.json'' db1 world_fresh))) ''db.json.tmp'' = None \<and>
   fst (SaveDatabaseLocal lib0 ''db.json'' db1 world_norename) = Some (RenameError ''db.json'') \<and>
   files world_norename ''db.json'' = Some ''{}'' \<and>
   files (snd (snd (SaveDatabaseLocal lib0 ''db.json'' db1 world_norename))) ''db.json'' = Some ''{}'' \<and>
   files (snd (snd (SaveDatabaseLocal lib0 ''db.json'' db1 world_norename))) ''db.json.tmp'' = None"
proof -
  have m: "json_MarshalIndent lib0 d = Inr doc1" for d
    by (simp add: lib0_def)
  have s: "fst (snd (SaveDatabaseLocal lib0 ''db.json'' db1 w)) = db1_saved" if "clock w = now0" for w
    using that SaveDatabaseLocal_stamps [of lib0 "''db.json''" db1 w]
    by (simp add: db1_saved_def db1_def ComputeChecksum_def lib0_def)
  have p: "SaveDatabaseLocal lib0 ''db.json'' db1 world_fresh =
      (fst (SaveDatabaseLocal lib0 ''db.json'' db1 world_fresh),
       fst (snd (SaveDatabaseLocal lib0 ''db.json'' db1 world_fresh)),
       snd (snd (SaveDatabaseLocal lib0 ''db.json'' db1 world_fresh)))"
    by simp
  have q: "SaveDatabaseLocal lib0 ''db.json'' db1 world_norename =
      (fst (SaveDatabaseLocal lib0 ''db.json'' db1 world_norename),
       fst (snd (SaveDatabaseLocal lib0 ''db.json'' db1 world_norename)),
       snd (snd (SaveDatabaseLocal lib0 ''db.json'' db1 world_norename)))"
    by simp
  have f: "clock world_fresh = now0" "write_plan world_fresh (''db.json'' @ ''.tmp'') = WriteOK"
    "\<not> rename_fails world_fresh (''db.json'' @ ''.tmp'') ''db.json''"
    "files world_fresh = Map.empty"
    by (simp_all add: world_fresh_def world0_def)
  have n: "clock world_norename = now0" "write_plan world_norename (''db.json'' @ ''.tmp'') = WriteOK"
    "rename_fails world_norename (''db.json'' @ ''.tmp'') ''db.json''"
    "\<not> remove_fails world_norename (''db.json'' @ ''.tmp'')"
    "files world_norename ''db.json'' = Some ''{}''"
    by (simp_all add: world_norename_def world0_def)
  show ?thesis
    using SaveDatabaseLocal_atomic [OF p] SaveDatabaseLocal_atomic [OF q] s [OF f(1)] s [OF n(1)] f n
    by (simp add: m)
qed

text \<open>
  Claim C9 as stated fails: the temp file is not always removed when the rename fails.
  When the temp file, once written, can be neither renamed nor removed (another process
  holds it open), the rename fails, the removal fails too and its error is discarded:
  the save returns the rename error, the destination is as it was, and the temp file
  stays, holding the new serialization.
\<close>

theorem SaveDatabaseLocal_leaves_temp_file:
  "fst (SaveDatabaseLocal lib0 ''db.json'' db1 world_locked) = Some (RenameError ''db.json'') \<and>
   files (snd (snd (SaveDatabaseLocal lib0 ''db.json'' db1 world_locked))) ''db.json'' = Some ''{}'' \<and>
   files (snd (snd (SaveDatabaseLocal lib0 ''db.json'' db1 world_locked))) ''db.json.tmp'' = Some doc1"
  by (simp add: SaveDatabaseLocal_lib0_db1 world_locked_def world0_def os_Rename_def os_Remove_def)

section \<open>Save then load\<close>

text \<open>
  The struct layer reads back what it wrote: every field of an entry, also those left
  out by \<^verbatim>\<open>omitempty\<close>, every entry of a map, and the metadata.
\<close>

lemma strings_ToLower_lower: "list_all (\<lambda>c. \<not> (CHR ''A'' \<le> c \<and> c \<le> CHR ''Z'')) s \<Longrightarrow> strings_ToLower s = s"
  by (induction s) (auto simp: strings_ToLower_def to_lower_def)

lemma strings_ToLower_tags [simp]:
  "strings_ToLower ''uuid'' = ''uuid''"
  "strings_ToLower ''id'' = ''id''"
  "strings_ToLower ''title'' = ''title''"
  "strings_ToLower ''hash'' = ''hash''"
  "strings_ToLower ''uri'' = ''uri''"
  "strings_ToLower ''added_date'' = ''added_date''"
  "strings_ToLower ''first_seen'' = ''first_seen''"
  "strings_ToLower ''last_attempt'' = ''last_attempt''"
  "strings_ToLower ''status'' = ''status''"
  "strings_ToLower ''torrent_id'' = ''torrent_id''"
  "strings_ToLower ''added_to_deluge'' = ''added_to_deluge''"
  "strings_ToLower ''retry_count'' = ''retry_count''"
  "strings_ToLower ''save_path'' = ''save_path''"
  "strings_ToLower ''torrent_name'' = ''torrent_name''"
  "strings_ToLower ''last_sequence'' = ''last_sequence''"
  "strings_ToLower ''last_modified'' = ''last_modified''"
  "strings_ToLower ''checksum'' = ''checksum''"
  "strings_ToLower ''metadata'' = ''metadata''"
  "strings_ToLower ''added'' = ''added''"
  "strings_ToLower ''retry'' = ''retry''"
  by (rule strings_ToLower_lower, simp add: less_eq_char_def)+

lemma int64_of_json_sint [simp]: "int64_of_json (JNumber (sint (n::int64))) old = (None, n)"
  using sint_ge [of n] sint_lt [of n] by (simp add: int64_of_json_def)

lemma string_of_json_JString [simp]: "string_of_json (JString s) old = (None, s)"
  by (simp add: string_of_json_def)

lemma first_error_None [simp]: "first_error None e = e"
  by (simp add: first_error_def)

lemma fold_omitempty_string:
  "fold f (omitempty_string name s) st = (if s = [] then st else f (name, JString s) st)"
  by (simp add: omitempty_string_def)

lemma fold_omitempty_int:
  "fold f (omitempty_int name n) st = (if n = 0 then st else f (name, JNumber (sint n)) st)"
  by (simp add: omitempty_int_def)

lemma MagnetEntry_field_simps:
  "MagnetEntry_field (''uuid'', JString s) (None, e) = (None, e\<lparr>UUID := s\<rparr>)"
  "MagnetEntry_field (''id'', JNumber (sint n)) (None, e) = (None, e\<lparr>ID := n\<rparr>)"
  "MagnetEntry_field (''title'', JString s) (None, e) = (None, e\<lparr>Title := s\<rparr>)"
  "MagnetEntry_field (''hash'', JString s) (None, e) = (None, e\<lparr>Hash := s\<rparr>)"
  "MagnetEntry_field (''uri'', JString s) (None, e) = (None, e\<lparr>URI := s\<rparr>)"
  "MagnetEntry_field (''added_date'', JString s) (None, e) = (None, e\<lparr>AddedDate := s\<rparr>)"
  "MagnetEntry_field (''first_seen'', JString s) (None, e) = (None, e\<lparr>FirstSeen := s\<rparr>)"
  "MagnetEntry_field (''last_attempt'', JString s) (None, e) = (None, e\<lparr>LastAttempt := s\<rparr>)"
  "MagnetEntry_field (''status'', JString s) (None, e) = (None, e\<lparr>Status := s\<rparr>)"
  "MagnetEntry_field (''torrent_id'', JString s) (None, e) = (None, e\<lparr>TorrentID := s\<rparr>)"
  "MagnetEntry_field (''added_to_deluge'', JString s) (None, e) = (None, e\<lparr>AddedToDeluge := s\<rparr>)"
  "MagnetEntry_field (''retry_count'', JNumber (sint n)) (None, e) = (None, e\<lparr>RetryCount := n\<rparr>)"
  "MagnetEntry_field (''save_path'', JString s) (None, e) = (None, e\<lparr>SavePath := s\<rparr>)"
  "MagnetEntry_field (''torrent_name'', JString s) (None, e) = (None, e\<lparr>TorrentName := s\<rparr>)"
  by (simp_all add: MagnetEntry_field_def)

lemma MagnetEntry_of_json_inverse:
  "MagnetEntry_of_json (MagnetEntry_json e) zero_entry = (None, e)"
proof -
  obtain u i t h r a fs la st ti ad rc sp tn where e: "e = \<lparr>UUID = u, ID = i, Title = t, Hash = h, URI = r, AddedDate = a,
     FirstSeen = fs, LastAttempt = la, Status = st, TorrentID = ti, AddedToDeluge = ad,
     RetryCount = rc, SavePath = sp, TorrentName = tn\<rparr>"
    by (cases e) auto
  show ?thesis
    by (simp add: e MagnetEntry_of_json_def MagnetEntry_json_def zero_entry_def
        fold_omitempty_string fold_omitempty_int MagnetEntry_field_simps)
qed


lemma DatabaseMetadata_of_json_inverse:
  "DatabaseMetadata_of_json (DatabaseMetadata_json m) zero_metadata = (None, m)"
  by (cases m) (simp add: DatabaseMetadata_of_json_def DatabaseMetadata_json_def zero_metadata_def
      DatabaseMetadata_field_def)

lemma map_member_entry:
  "map_member (k, MagnetEntry_json e) (None, acc) = (None, acc(k \<mapsto> e))"
  by (simp add: map_member_def MagnetEntry_of_json_inverse)

lemma fold_map_member:
  "set ks \<subseteq> dom m \<Longrightarrow>
   fold map_member (map (\<lambda>k. (k, case m k of None \<Rightarrow> JNull | Some e \<Rightarrow> MagnetEntry_json e)) ks)
     (None, acc) = (None, \<lambda>k. if k \<in> set ks then m k else acc k)"
proof (induction ks arbitrary: acc)
  case Nil
  then show ?case by simp
next
  case (Cons k ks)
  from Cons.prems obtain e where e: "m k = Some e" by auto
  have "set ks \<subseteq> dom m" using Cons.prems by simp
  note ih = Cons.IH [OF this]
  have "(\<lambda>ka. if ka \<in> set ks then m ka else (acc(k \<mapsto> e)) ka) =
        (\<lambda>ka. if ka \<in> set (k # ks) then m ka else acc ka)"
    by (auto simp: e)
  then show ?case
    by (simp add: e map_member_entry ih)
qed

lemma map_of_json_inverse:
  assumes "finite (dom m)"
  shows "map_of_json (map_json m) Map.empty = (None, m)"
proof -
  have s: "set (sorted_list_of_set (dom m)) = dom m" using assms by simp
  have "(\<lambda>k. if k \<in> dom m then m k else None) = m" by (auto simp: domIff)
  then show ?thesis
    using fold_map_member [of "sorted_list_of_set (dom m)" m Map.empty]
    by (simp add: map_of_json_def map_json_def s)
qed

lemma MagnetDatabase_of_json_inverse:
  assumes "finite (dom (Added db))" and "finite (dom (Retry db))"
  shows "MagnetDatabase_of_json (MagnetDatabase_json db) empty_db = (None, db)"
  using assms
  by (simp add: MagnetDatabase_of_json_def MagnetDatabase_json_def MagnetDatabase_field_def
      empty_db_def DatabaseMetadata_of_json_inverse map_of_json_inverse)

lemma MagnetEntryV0_of_metadata:
  "MagnetEntryV0_of_json (DatabaseMetadata_json m) zero_entryV0 = (None, zero_entryV0)"
  by (simp add: MagnetEntryV0_of_json_def DatabaseMetadata_json_def MagnetEntryV0_field_def)

lemma MagnetEntryV0_of_no_member:
  "MagnetEntryV0_of_json (JObject []) zero_entryV0 = (None, zero_entryV0)"
  by (simp add: MagnetEntryV0_of_json_def)

lemma mapV0_of_json_empty_database:
  assumes "Added db = Map.empty" and "Retry db = Map.empty"
  shows "mapV0_of_json (MagnetDatabase_json db) =
           (None, [(''metadata'', zero_entryV0), (''added'', zero_entryV0), (''retry'', zero_entryV0)])"
  using assms
  by (simp add: mapV0_of_json_def MagnetDatabase_json_def mapV0_member_def map_json_def
      MagnetEntryV0_of_metadata MagnetEntryV0_of_no_member)

lemma encoding_json_simps:
  "json_Marshal (encoding_json T sha) db = Inr (text_Marshal T (MagnetDatabase_json db))"
  "json_MarshalIndent (encoding_json T sha) db = Inr (text_MarshalIndent T (MagnetDatabase_json db))"
  "json_Unmarshal (encoding_json T sha) data db0 =
     (case text_Unmarshal T data of Inl msg \<Rightarrow> (Some msg, db0) | Inr v \<Rightarrow> MagnetDatabase_of_json v db0)"
  "json_Unmarshal_V0 (encoding_json T sha) data =
     (case text_Unmarshal T data of Inl msg \<Rightarrow> (Some msg, []) | Inr v \<Rightarrow> mapV0_of_json v)"
  "sha1_Sum (encoding_json T sha) = sha"
  by (simp_all add: encoding_json_def)













text \<open>
  A database without entries has nothing to reproduce, and its load succeeds, but not
  as the empty database: the current schema is not accepted without an entry, and the
  V0 decoder takes the three members of the document for three entries.
\<close>

lemma load_of_saved_empty_database:
  assumes save: "SaveDatabaseLocal (encoding_json T sha) path db w = (res, db', w')"
    and writable: "write_plan w (path @ ''.tmp'') = WriteOK"
    and renamable: "\<not> rename_fails w (path @ ''.tmp'') path"
    and readable: "read_faults w path < 5"
    and read_back: "text_Unmarshal T (text_MarshalIndent T (MagnetDatabase_json db')) =
                 Inr (MagnetDatabase_json db')"
    and empty: "Added db = Map.empty" "Retry db = Map.empty"
  shows "\<exists>loaded. fst (LoadJSONDatabase (encoding_json T sha) path w') = Inr loaded \<and>
           dom (Added loaded) = {''metadata'', ''added'', ''retry''}"
proof -
  let ?L = "encoding_json T sha"
  let ?data = "text_MarshalIndent T (MagnetDatabase_json db')"
  have d: "fst (snd (SaveDatabaseLocal ?L path db w)) = db'" using save by simp
  have m: "json_MarshalIndent ?L (fst (snd (SaveDatabaseLocal ?L path db w))) = Inr ?data"
    by (simp add: d encoding_json_simps)
  have s: "SaveDatabaseLocal ?L path db w =
             (None, db', w\<lparr>files := ((files w)(path @ ''.tmp'' := None))(path \<mapsto> ?data)\<rparr>)"
    using SaveDatabaseLocal_succeeds [OF m writable renamable] by (simp add: d)
  have w': "w' = w\<lparr>files := ((files w)(path @ ''.tmp'' := None))(path \<mapsto> ?data)\<rparr>"
    using s save by simp
  have e: "Added db' = Map.empty" "Retry db' = Map.empty"
    using SaveDatabaseLocal_stamps [of ?L path db w] empty by (simp_all add: d)
  have f: "files w' path = Some ?data" and rf: "read_faults w' path < 5"
    using readable by (simp_all add: w')
  have u: "json_Unmarshal ?L ?data empty_db = (None, db')"
    using MagnetDatabase_of_json_inverse [of db'] by (simp add: read_back e encoding_json_simps)
  have v: "json_Unmarshal_V0 ?L ?data =
            (None, [(''metadata'', zero_entryV0), (''added'', zero_entryV0), (''retry'', zero_entryV0)])"
    by (simp add: read_back mapV0_of_json_empty_database [OF e] encoding_json_simps)
  show ?thesis
    unfolding LoadJSONDatabase_reads [OF f rf]
    by (auto simp: parse_database_def u v e migrate_V0_entry_def GenerateUUID_def Let_def)
qed

section \<open>Reconcile: identical files\<close>

lemma length_hex_EncodeToString: "length (hex_EncodeToString h) = 40"
  by (simp add: hex_EncodeToString_def)

lemma ComputeFileChecksum_length:
  "ComputeFileChecksum L path w = (Inr c, w1) \<Longrightarrow> length c = 40"
  by (auto simp: ComputeFileChecksum_def length_hex_EncodeToString split: prod.splits sum.splits)

text \<open>
  Claim C8: when both checksum reads succeed and give the same checksum,
  \<^verbatim>\<open>SyncWithRemote\<close> returns what \<^verbatim>\<open>LoadJSONDatabase\<close> returns for the local path, the
  database unchanged (metadata included) or its error wrapped; the result does not depend
  on \<open>hs\<close>, the merge does not run.
\<close>

theorem SyncWithRemote_identical_files:
  assumes "ComputeFileChecksum L localPath w = (Inr c, w1)"
    and "ComputeFileChecksum L remotePath w1 = (Inr c, w2)"
  shows "SyncWithRemote L hs localPath remotePath w =
           (case LoadJSONDatabase L localPath w2 of
              (Inl err, w3) \<Rightarrow> (Inl (Wrapped ''failed to load local'' err), w3)
            | (Inr loc, w3) \<Rightarrow> (Inr loc, w3))"
  using assms ComputeFileChecksum_length [OF assms(1)]
  by (simp add: SyncWithRemote_def)

theorem SyncWithRemote_identical_files_witness:
  "ComputeFileChecksum lib0 ''local.json'' world_twins = (Inr (hex_EncodeToString 0), world_twins) \<and>
   ComputeFileChecksum lib0 ''remote.json'' world_twins = (Inr (hex_EncodeToString 0), world_twins) \<and>
   fst (SyncWithRemote lib0 [''hash1''] ''local.json'' ''remote.json'' world_twins) = Inr db1_saved \<and>
   LastSequence (Metadata db1_saved) = 1"
proof -
  have a: "ComputeFileChecksum lib0 ''local.json'' world_twins = (Inr (hex_EncodeToString 0), world_twins)"
    by (simp add: ComputeFileChecksum_def os_ReadFile_def world_twins_def world0_def lib0_def)
  have b: "ComputeFileChecksum lib0 ''remote.json'' world_twins = (Inr (hex_EncodeToString 0), world_twins)"
    by (simp add: ComputeFileChecksum_def os_ReadFile_def world_twins_def world0_def lib0_def)
  have "LoadJSONDatabase lib0 ''local.json'' world_twins =
        parse_database lib0 doc1 empty_db
          (world_twins\<lparr>read_faults := (read_faults world_twins)(''local.json'' := 0)\<rparr>)"
    by (rule LoadJSONDatabase_reads) (simp_all add: world_twins_def world0_def)
  then have l: "fst (LoadJSONDatabase lib0 ''local.json'' world_twins) = Inr db1_saved"
    by (simp add: parse_database_def lib0_def db1_saved_def db1_def)
  show ?thesis
    using a b l SyncWithRemote_identical_files [OF a b, of "[''hash1'']"]
    by (simp add: db1_saved_def split: prod.splits sum.splits)
qed

section \<open>Checksum: what is digested\<close>

lemma hex_digits_distinct: "distinct ''0123456789abcdef''"
  by simp

lemma hex_digit_inj:
  assumes "hex_digit i = hex_digit j"
  shows "i mod 16 = j mod 16"
proof -
  have l: "length ''0123456789abcdef'' = 16" by simp
  have "i mod 16 < length ''0123456789abcdef''" "j mod 16 < length ''0123456789abcdef''"
    unfolding l by simp_all
  then show ?thesis
    using assms nth_eq_iff_index_eq [OF hex_digits_distinct, of "i mod 16" "j mod 16"]
    unfolding hex_digit_def by blast
qed

lemma hex_EncodeToString_nth:
  "i < 40 \<Longrightarrow> hex_EncodeToString h ! i = hex_digit (unat (drop_bit (4 * (39 - i)) h))"
  unfolding hex_EncodeToString_def by (simp only: nth_map length_upt nth_upt) simp

lemma hex_EncodeToString_nibble:
  assumes "hex_EncodeToString a = hex_EncodeToString b" and "k < 40"
  shows "unat (drop_bit (4 * k) a) mod 16 = unat (drop_bit (4 * k) b) mod 16"
proof -
  have i: "39 - k < 40" by simp
  have e: "39 - (39 - k) = k" using assms(2) by simp
  have "hex_EncodeToString a ! (39 - k) = hex_EncodeToString b ! (39 - k)" using assms(1) by simp
  then have "hex_digit (unat (drop_bit (4 * k) a)) = hex_digit (unat (drop_bit (4 * k) b))"
    unfolding hex_EncodeToString_nth [OF i] e .
  then show ?thesis by (rule hex_digit_inj)
qed


lemma hex_EncodeToString_inj:
  assumes "hex_EncodeToString a = hex_EncodeToString b"
  shows "a = b"
proof (rule bit_word_eqI)
  fix n assume "n < LENGTH(160)"
  then have n: "n < 160" by simp
  define k r where "k = n div 4" and "r = n mod 4"
  have k: "k < 40" and r: "r < 4" and nk: "4 * k + r = n" using n by (auto simp: k_def r_def)
  have "take_bit 4 (unat (drop_bit (4 * k) a)) = take_bit 4 (unat (drop_bit (4 * k) b))"
    using hex_EncodeToString_nibble [OF assms k] by (simp add: take_bit_eq_mod)
  then have "bit (take_bit 4 (unat (drop_bit (4 * k) a))) r = bit (take_bit 4 (unat (drop_bit (4 * k) b))) r"
    by (rule arg_cong)
  then have "bit a (4 * k + r) = bit b (4 * k + r)"
    using r by (simp only: bit_take_bit_iff bit_unsigned_iff bit_drop_bit_eq o_def) simp
  then show "bit a n = bit b n" unfolding nk .
qed

text \<open>
  Claim C4 says that the metadata is excluded from the hashed bytes, so that changing
  only metadata leaves the checksum unchanged. \<^verbatim>\<open>ComputeChecksum\<close> passes the whole
  database to \<^verbatim>\<open>json.Marshal\<close>: the checksum of a database with changed metadata is the
  digest of the serialization of the changed database, and it differs from the original
  checksum whenever the two serializations have different SHA-1 sums.
\<close>

theorem ComputeChecksum_follows_metadata:
  assumes "json_Marshal L db = Inr a"
    and "json_Marshal L (db\<lparr>Metadata := m\<rparr>) = Inr b"
    and "sha1_Sum L a \<noteq> sha1_Sum L b"
  shows "ComputeChecksum L (db\<lparr>Metadata := m\<rparr>) \<noteq> ComputeChecksum L db"
  using assms hex_EncodeToString_inj [of "sha1_Sum L b" "sha1_Sum L a"]
  by (auto simp: ComputeChecksum_def)

theorem ComputeChecksum_follows_metadata_witness:
  "json_Marshal lib_meta db1 = Inr [] \<and>
   json_Marshal lib_meta (db1\<lparr>Metadata := (Metadata db1)\<lparr>LastModified := now0\<rparr>\<rparr>) = Inr now0 \<and>
   sha1_Sum lib_meta [] \<noteq> sha1_Sum lib_meta now0 \<and>
   Added (db1\<lparr>Metadata := (Metadata db1)\<lparr>LastModified := now0\<rparr>\<rparr>) = Added db1 \<and>
   Retry (db1\<lparr>Metadata := (Metadata db1)\<lparr>LastModified := now0\<rparr>\<rparr>) = Retry db1 \<and>
   ComputeChecksum lib_meta (db1\<lparr>Metadata := (Metadata db1)\<lparr>LastModified := now0\<rparr>\<rparr>) \<noteq>
     ComputeChecksum lib_meta db1"
proof -
  have a: "json_Marshal lib_meta db1 = Inr []"
    by (simp add: lib_meta_def db1_def)
  have b: "json_Marshal lib_meta (db1\<lparr>Metadata := (Metadata db1)\<lparr>LastModified := now0\<rparr>\<rparr>) = Inr now0"
    by (simp add: lib_meta_def)
  have c: "sha1_Sum lib_meta [] \<noteq> sha1_Sum lib_meta now0"
    by (simp add: lib_meta_def now0_def)
  show ?thesis
    using a b c ComputeChecksum_follows_metadata [OF a b c] by simp
qed

section \<open>Magnet URI: the shape of an extracted hash\<close>

lemma to_lower_hex: "is_hex c \<Longrightarrow> is_lower_hex (to_lower c)"
  by (auto simp: is_hex_def is_lower_hex_def is_digit_def to_lower_def less_eq_char_def)

lemma to_lower_alnum: "is_alnum c \<Longrightarrow> is_lower_alnum (to_lower c)"
  by (auto simp: is_alnum_def is_lower_alnum_def is_digit_def to_lower_def less_eq_char_def)

lemma ToLower_hex: "list_all is_hex g \<Longrightarrow> list_all is_lower_hex (strings_ToLower g)"
  by (induction g) (simp_all add: strings_ToLower_def to_lower_hex)

lemma ToLower_alnum: "list_all is_alnum g \<Longrightarrow> list_all is_lower_alnum (strings_ToLower g)"
  by (induction g) (simp_all add: strings_ToLower_def to_lower_alnum)

lemma btih_group_shape:
  assumes "btih_group s = Some g"
  shows "(length g = 40 \<and> list_all is_hex g) \<or> (length g = 32 \<and> list_all is_alnum g)"
    and "\<exists>post. s = g @ post"
proof -
  have "g = take 40 s \<and> 40 \<le> length s \<and> list_all is_hex g \<or>
        g = take 32 s \<and> 32 \<le> length s \<and> list_all is_alnum g"
    using assms by (auto simp: btih_group_def split: if_splits)
  then show "(length g = 40 \<and> list_all is_hex g) \<or> (length g = 32 \<and> list_all is_alnum g)"
    by auto
  show "\<exists>post. s = g @ post"
    using assms by (auto simp: btih_group_def split: if_splits intro: append_take_drop_id [symmetric])
qed

lemma match_here_shape:
  assumes "match_here s \<noteq> []"
  shows "\<exists>g post. s = ''xt=urn:btih:'' @ g @ post \<and> match_here s = [''xt=urn:btih:'' @ g, g] \<and>
           btih_group (g @ post) = Some g"
proof -
  from assms have p: "take 12 s = ''xt=urn:btih:''"
    by (auto simp: match_here_def split: if_splits)
  from assms p obtain g where g: "btih_group (drop 12 s) = Some g"
    by (auto simp: match_here_def split: option.splits)
  from btih_group_shape(2) [OF g] obtain post where d: "drop 12 s = g @ post" by blast
  have "s = take 12 s @ drop 12 s" by simp
  then have "s = ''xt=urn:btih:'' @ g @ post" using p d by metis
  moreover have "match_here s = [''xt=urn:btih:'' @ g, g]" using p g by (simp add: match_here_def)
  moreover have "btih_group (g @ post) = Some g" using g d by simp
  ultimately show ?thesis by blast
qed

lemma FindStringSubmatch_leftmost:
  "FindStringSubmatch s = [] \<or>
   (\<exists>pre rest. s = pre @ rest \<and> FindStringSubmatch s = match_here rest \<and> match_here rest \<noteq> [] \<and>
      (\<forall>i<length pre. match_here (drop i s) = []))"
proof (induction s)
  case Nil
  then show ?case by (simp add: match_here_def)
next
  case (Cons c cs)
  show ?case
  proof (cases "match_here (c # cs) \<noteq> []")
    case True
    then have "c # cs = [] @ (c # cs) \<and> FindStringSubmatch (c # cs) = match_here (c # cs) \<and>
        match_here (c # cs) \<noteq> [] \<and> (\<forall>i<length ([]::string). match_here (drop i (c # cs)) = [])"
      by simp
    then show ?thesis by blast
  next
    case False
    then have f: "FindStringSubmatch (c # cs) = FindStringSubmatch cs" by simp
    from Cons.IH show ?thesis
    proof
      assume "FindStringSubmatch cs = []"
      then show ?thesis using f by simp
    next
      assume "\<exists>pre rest. cs = pre @ rest \<and> FindStringSubmatch cs = match_here rest \<and>
          match_here rest \<noteq> [] \<and> (\<forall>i<length pre. match_here (drop i cs) = [])"
      then obtain pre rest where r: "cs = pre @ rest" "FindStringSubmatch cs = match_here rest"
          "match_here rest \<noteq> []" "\<forall>i<length pre. match_here (drop i cs) = []"
        by blast
      have "\<forall>i<length (c # pre). match_here (drop i (c # cs)) = []"
      proof (intro allI impI)
        fix i assume "i < length (c # pre)"
        then show "match_here (drop i (c # cs)) = []"
          using False r(4) by (cases i) auto
      qed
      then have "c # cs = (c # pre) @ rest \<and> FindStringSubmatch (c # cs) = match_here rest \<and>
          match_here rest \<noteq> [] \<and> (\<forall>i<length (c # pre). match_here (drop i (c # cs)) = [])"
        using r f by simp
      then show ?thesis by blast
    qed
  qed
qed

text \<open>
  Claim C10: \<^verbatim>\<open>ExtractMagnetHash\<close> returns the empty string, or the lower-cased group of the
  leftmost match of \<^verbatim>\<open>xt=urn:btih:\<close> followed by the group; the group is 40 hexadecimal
  characters or 32 alphanumeric characters, and the result has the same length and holds
  digits and lower-case letters only.
\<close>

theorem ExtractMagnetHash_shape:
  "ExtractMagnetHash uri = [] \<or>
   (\<exists>pre g post. uri = pre @ ''xt=urn:btih:'' @ g @ post \<and>
      (\<forall>i<length pre. match_here (drop i uri) = []) \<and>
      btih_group (g @ post) = Some g \<and>
      ExtractMagnetHash uri = strings_ToLower g \<and>
      length (ExtractMagnetHash uri) = length g \<and>
      ((length g = 40 \<and> list_all is_hex g \<and> list_all is_lower_hex (ExtractMagnetHash uri)) \<or>
       (length g = 32 \<and> list_all is_alnum g \<and> list_all is_lower_alnum (ExtractMagnetHash uri))))"
proof (cases "FindStringSubmatch uri = []")
  case True
  then show ?thesis by (simp add: ExtractMagnetHash_def)
next
  case False
  with FindStringSubmatch_leftmost [of uri] obtain pre rest where
    r: "uri = pre @ rest" "FindStringSubmatch uri = match_here rest" "match_here rest \<noteq> []"
       "\<forall>i<length pre. match_here (drop i uri) = []"
    by blast
  from match_here_shape [OF r(3)] obtain g post where
    m: "rest = ''xt=urn:btih:'' @ g @ post" "match_here rest = [''xt=urn:btih:'' @ g, g]"
       "btih_group (g @ post) = Some g"
    by blast
  have e: "ExtractMagnetHash uri = strings_ToLower g"
    using r(2) m(2) by (simp add: ExtractMagnetHash_def)
  have l: "length (ExtractMagnetHash uri) = length g" by (simp add: e strings_ToLower_def)
  have s: "(length g = 40 \<and> list_all is_hex g \<and> list_all is_lower_hex (ExtractMagnetHash uri)) \<or>
       (length g = 32 \<and> list_all is_alnum g \<and> list_all is_lower_alnum (ExtractMagnetHash uri))"
    using btih_group_shape(1) [OF m(3)] ToLower_hex [of g] ToLower_alnum [of g] e by auto
  have "uri = pre @ ''xt=urn:btih:'' @ g @ post" using r(1) m(1) by simp
  then show ?thesis using r(4) m(3) e l s by blast
qed

theorem ExtractMagnetHash_shape_witness:
  "ExtractMagnetHash uri0 = ''aabbccddeeff1234567890aabbccddeeff123456'' \<and>
   length (ExtractMagnetHash uri0) = 40 \<and>
   list_all is_lower_hex (ExtractMagnetHash uri0)"
proof -
  have e: "ExtractMagnetHash uri0 = ''aabbccddeeff1234567890aabbccddeeff123456''"
    by code_simp
  have n: "ExtractMagnetHash uri0 \<noteq> []" by (simp add: e)
  have "length (ExtractMagnetHash uri0) \<noteq> 32" by (simp add: e)
  then show ?thesis
    using e n ExtractMagnetHash_shape [of uri0] by auto
qed

end
